theory Spec2Isabelle
  imports Main
begin

unbundle bit_operations_syntax

section \<open>The daemon (src/chinta/src/daemon.cpp)\<close>

subsection \<open>Constants of the system headers\<close>

text \<open>
  The source uses these macros of \<^verbatim>\<open><stdlib.h>\<close>, \<^verbatim>\<open><signal.h>\<close>, \<^verbatim>\<open><unistd.h>\<close> and
  \<^verbatim>\<open><syslog.h>\<close>; the headers are not part of the repository. The values are those of
  Linux with glibc, as are the signal numbers in the table of default actions further
  down. Only the examples at concrete inputs use the values of the macros; the general
  theorems use no more than that \<open>EXIT_FAILURE\<close> is not zero.
\<close>

definition EXIT_SUCCESS :: int where "EXIT_SUCCESS = 0"
definition EXIT_FAILURE :: int where "EXIT_FAILURE = 1"
definition SIGINT :: int where "SIGINT = 2"
definition SIGTERM :: int where "SIGTERM = 15"
definition STDIN_FILENO :: int where "STDIN_FILENO = 0"
definition STDOUT_FILENO :: int where "STDOUT_FILENO = 1"
definition STDERR_FILENO :: int where "STDERR_FILENO = 2"
definition LOG_INFO :: int where "LOG_INFO = 6"
definition LOG_PID :: int where "LOG_PID = 1"
definition LOG_NDELAY :: int where "LOG_NDELAY = 8"
definition LOG_DAEMON :: int where "LOG_DAEMON = 24"

subsection \<open>The process and its trace\<close>

text \<open>
  The program is a sequence of calls into the operating system. The model keeps the part
  of the process state those calls change, and a trace of the calls in the order they are
  made. Every trace entry carries the time at which it happened and the execution context
  that made the call: the normal control flow of \<open>main\<close>, or \<open>signal_handler\<close> running
  asynchronously; the delivery of a signal is an entry of the kernel.
\<close>

datatype ctx = In_main | In_handler | In_kernel

datatype event =
    Ev_fork int                     \<comment> \<open>\<open>fork()\<close> and the value it returned\<close>
  | Ev_setsid int                   \<comment> \<open>\<open>setsid()\<close> and the value it returned\<close>
  | Ev_chdir string int             \<comment> \<open>\<open>chdir(path)\<close> and the value it returned\<close>
  | Ev_close int                    \<comment> \<open>\<open>close(fd)\<close>\<close>
  | Ev_openlog string int int       \<comment> \<open>\<open>openlog(ident, option, facility)\<close>\<close>
  | Ev_syslog int string "int list" \<comment> \<open>\<open>syslog(priority, format, args...)\<close>\<close>
  | Ev_closelog                     \<comment> \<open>\<open>closelog()\<close>\<close>
  | Ev_signal int                   \<comment> \<open>\<open>signal(signum, signal_handler)\<close>\<close>
  | Ev_sleep nat                    \<comment> \<open>\<open>sleep(seconds)\<close> is entered\<close>
  | Ev_deliver int                  \<comment> \<open>the kernel delivers a caught signal\<close>
  | Ev_killed int                   \<comment> \<open>the kernel terminates the process for a signal\<close>
  | Ev_stopped int                  \<comment> \<open>the kernel stops the process for a signal\<close>
  | Ev_exit int                     \<comment> \<open>\<open>exit(status)\<close>\<close>
  | Ev_return int                   \<comment> \<open>\<open>return status\<close> from \<open>main\<close>\<close>

text \<open>
  A process is alive, or it has terminated with an exit status (\<open>exit\<close>, or \<open>return\<close> from
  \<open>main\<close>), or the kernel has terminated it for a signal, in which case it leaves no exit
  status, or the kernel has stopped it for a signal. A stopped process is followed no
  further.
\<close>

datatype pstatus = Running | Exited int | Killed int | Stopped int

record proc =
  status :: pstatus
  clock :: nat                            \<comment> \<open>seconds since the process started\<close>
  cur_ctx :: ctx                          \<comment> \<open>who is executing\<close>
  trace :: "(nat \<times> ctx \<times> event) list"
  own_session :: bool                     \<comment> \<open>leader of a session of its own: no controlling terminal\<close>
  cwd :: string                           \<comment> \<open>working directory\<close>
  fds :: "int list"                       \<comment> \<open>the descriptors it was started with that are still open\<close>
  log_open :: bool                        \<comment> \<open>the connection to the system logger\<close>
  caught :: "int list"                    \<comment> \<open>signals whose disposition is \<open>signal_handler\<close>\<close>

text \<open>What the operating system answers to the three calls whose result \<open>main\<close> tests.\<close>

record os =
  fork_ret :: int
  setsid_ret :: int
  chdir_ret :: int

text \<open>
  A process as the shell starts it: in the foreground, inside the shell's session, with
  the given working directory and open descriptors, no log connection, no handler, and
  the default disposition for every signal. The field \<open>fds\<close> follows the descriptors the
  process inherits; the socket that \<open>openlog\<close> and \<open>syslog\<close> open for themselves is the
  field \<open>log_open\<close>, whatever descriptor number the kernel gives it.
\<close>

definition foreground :: "string \<Rightarrow> int list \<Rightarrow> proc" where
  "foreground dir ds =
     \<lparr>status = Running, clock = 0, cur_ctx = In_main, trace = [], own_session = False,
      cwd = dir, fds = ds, log_open = False, caught = []\<rparr>"

definition emit_in :: "ctx \<Rightarrow> event \<Rightarrow> proc \<Rightarrow> proc" where
  "emit_in c e s = s\<lparr>trace := trace s @ [(clock s, c, e)]\<rparr>"

definition emit :: "event \<Rightarrow> proc \<Rightarrow> proc" where
  "emit e s = emit_in (cur_ctx s) e s"

subsection \<open>The library calls\<close>

text \<open>
  Each call records itself and has its documented POSIX effect. \<open>fork\<close> is seen from one
  of the two processes it leaves: \<open>r\<close> is the value it returns there (negative: no child
  was made; positive: this is the original process; zero: this is the child, which
  inherits the state). \<open>setsid\<close> and \<open>chdir\<close> change the state only when they succeed.
  The source ignores the result of \<open>close\<close>.
\<close>

definition fork :: "int \<Rightarrow> proc \<Rightarrow> proc" where
  "fork r s = emit (Ev_fork r) s"

definition setsid :: "int \<Rightarrow> proc \<Rightarrow> proc" where
  "setsid r s = (emit (Ev_setsid r) s)\<lparr>own_session := (if r < 0 then own_session s else True)\<rparr>"

definition chdir :: "string \<Rightarrow> int \<Rightarrow> proc \<Rightarrow> proc" where
  "chdir path r s = (emit (Ev_chdir path r) s)\<lparr>cwd := (if r < 0 then cwd s else path)\<rparr>"

definition close :: "int \<Rightarrow> proc \<Rightarrow> proc" where
  "close fd s = (emit (Ev_close fd) s)\<lparr>fds := removeAll fd (fds s)\<rparr>"

definition openlog :: "string \<Rightarrow> int \<Rightarrow> int \<Rightarrow> proc \<Rightarrow> proc" where
  "openlog ident opt facility s = (emit (Ev_openlog ident opt facility) s)\<lparr>log_open := True\<rparr>"

definition syslog :: "int \<Rightarrow> string \<Rightarrow> int list \<Rightarrow> proc \<Rightarrow> proc" where
  "syslog priority fmt args s = (emit (Ev_syslog priority fmt args) s)\<lparr>log_open := True\<rparr>"

definition closelog :: "proc \<Rightarrow> proc" where
  "closelog s = (emit Ev_closelog s)\<lparr>log_open := False\<rparr>"

definition signal :: "int \<Rightarrow> proc \<Rightarrow> proc" where
  "signal signum s = (emit (Ev_signal signum) s)\<lparr>caught := List.insert signum (caught s)\<rparr>"

definition exit :: "int \<Rightarrow> proc \<Rightarrow> proc" where
  "exit code s = (emit (Ev_exit code) s)\<lparr>status := Exited code\<rparr>"

definition return_main :: "int \<Rightarrow> proc \<Rightarrow> proc" where
  "return_main code s = (emit (Ev_return code) s)\<lparr>status := Exited code\<rparr>"

subsection \<open>\<open>signal_handler\<close> (lines 7 to 13)\<close>

definition signal_handler :: "int \<Rightarrow> proc \<Rightarrow> proc" where
  "signal_handler signum s =
     (if signum = SIGTERM \<or> signum = SIGINT
      then exit 0 (closelog (syslog LOG_INFO ''Daemon received signal %d, exiting.'' [signum] s))
      else s)"

subsection \<open>Signal delivery and \<open>sleep\<close>\<close>

text \<open>
  The kernel runs the handler of a caught signal at once, on top of whatever the process
  is doing; when the handler returns, the interrupted context resumes. A process that
  exited inside the handler stays there.
\<close>

definition deliver :: "int \<Rightarrow> proc \<Rightarrow> proc" where
  "deliver signum s =
     (let s1 = signal_handler signum ((emit_in In_kernel (Ev_deliver signum) s)\<lparr>cur_ctx := In_handler\<rparr>)
      in if status s1 = Running then s1\<lparr>cur_ctx := cur_ctx s\<rparr> else s1)"

text \<open>
  The program changes the disposition of \<open>SIGTERM\<close> and \<open>SIGINT\<close> only. For every other
  signal, and for these two until \<open>signal\<close> has been called for them, the kernel takes the
  default action of \<^verbatim>\<open>signal(7)\<close>. With the numbers of Linux: the signals 17 (\<open>SIGCHLD\<close>),
  18 (\<open>SIGCONT\<close>, which finds nothing to continue in a process that is not stopped), 23
  (\<open>SIGURG\<close>) and 28 (\<open>SIGWINCH\<close>) are discarded; 19 (\<open>SIGSTOP\<close>), 20 (\<open>SIGTSTP\<close>), 21
  (\<open>SIGTTIN\<close>) and 22 (\<open>SIGTTOU\<close>) stop the process (the last three are discarded instead
  when its process group is orphaned, which the model does not decide: it takes the stop
  and follows the process no further); every other signal from 1 to 64, among them
  \<open>SIGHUP\<close>, \<open>SIGINT\<close>, \<open>SIGKILL\<close>, \<open>SIGUSR1\<close> and \<open>SIGTERM\<close>, terminates the process.
  A number outside 1 to 64 names no signal, so nothing arrives.
\<close>

datatype default_action = Dfl_terminate | Dfl_ignore | Dfl_stop

definition default_action :: "int \<Rightarrow> default_action" where
  "default_action signum =
     (if signum \<in> {19, 20, 21, 22} then Dfl_stop
      else if signum \<in> {17, 18, 23, 28} \<or> signum < 1 \<or> 64 < signum then Dfl_ignore
      else Dfl_terminate)"

text \<open>
  The arrival of a signal: the handler if the signal is caught, the default action
  otherwise.
\<close>

definition arrives :: "int \<Rightarrow> proc \<Rightarrow> proc" where
  "arrives signum s =
     (if signum \<in> set (caught s) then deliver signum s
      else
        case default_action signum of
          Dfl_terminate \<Rightarrow> (emit_in In_kernel (Ev_killed signum) s)\<lparr>status := Killed signum\<rparr>
        | Dfl_stop \<Rightarrow> (emit_in In_kernel (Ev_stopped signum) s)\<lparr>status := Stopped signum\<rparr>
        | Dfl_ignore \<Rightarrow> s)"

text \<open>
  A delivery \<open>(t, signum)\<close> says that signal \<open>signum\<close> arrives \<open>t\<close> seconds after the
  process went to sleep (at the latest when the sleep ends). \<open>sleep n\<close> without a
  delivery lasts \<open>n\<close> seconds, and so does one during which a discarded signal arrives.
  Any other signal takes effect at the time it arrives: a caught signal runs the handler
  and, if the handler returns, \<open>sleep\<close> returns early; an uncaught one ends or stops the
  process.
\<close>

type_synonym delivery = "nat \<times> int"

definition sleep :: "nat \<Rightarrow> delivery option \<Rightarrow> proc \<Rightarrow> proc" where
  "sleep n d s =
     (let s1 = emit (Ev_sleep n) s in
      case d of
        None \<Rightarrow> s1\<lparr>clock := clock s1 + n\<rparr>
      | Some (t, signum) \<Rightarrow>
          if signum \<in> set (caught s1) \<or> default_action signum \<noteq> Dfl_ignore
          then arrives signum (s1\<lparr>clock := clock s1 + min t n\<rparr>)
          else s1\<lparr>clock := clock s1 + n\<rparr>)"

subsection \<open>\<open>main\<close> (lines 15 to 62)\<close>

text \<open>Lines 16 to 43: fork, new session, working directory, standard descriptors.\<close>

definition main_detach :: "os \<Rightarrow> proc \<Rightarrow> proc" where
  "main_detach os s0 =
     (let pid = fork_ret os; s1 = fork pid s0 in
      if pid < 0 then exit EXIT_FAILURE s1
      else if pid > 0 then exit EXIT_SUCCESS s1
      else
        let s2 = setsid (setsid_ret os) s1 in
        if setsid_ret os < 0 then exit EXIT_FAILURE s2
        else
          let s3 = chdir ''/'' (chdir_ret os) s2 in
          if chdir_ret os < 0 then exit EXIT_FAILURE s3
          else close STDERR_FILENO (close STDOUT_FILENO (close STDIN_FILENO s3)))"

text \<open>
  Lines 45 to 51: the log is opened and the two handlers are installed. A signal can
  arrive while this goes on. The early delivery \<open>(k, signum)\<close> says that signal \<open>signum\<close>
  arrives just before call number \<open>k\<close> of the four: 0 is \<open>openlog\<close>, hence right after
  the descriptors were closed, 1 is \<open>syslog\<close>, 2 is \<open>signal(SIGTERM, ...)\<close>, 3 is
  \<open>signal(SIGINT, ...)\<close>, and 4 or more is after the last call, before the loop. A
  statement runs only in a process that is still alive.
\<close>

definition alive :: "(proc \<Rightarrow> proc) \<Rightarrow> proc \<Rightarrow> proc" where
  "alive f s = (if status s = Running then f s else s)"

definition early_at :: "nat \<Rightarrow> delivery option \<Rightarrow> proc \<Rightarrow> proc" where
  "early_at k early s =
     (case early of
        None \<Rightarrow> s
      | Some (k', signum) \<Rightarrow> if min k' 4 = k then alive (arrives signum) s else s)"

definition main_init :: "delivery option \<Rightarrow> proc \<Rightarrow> proc" where
  "main_init early s =
     early_at 4 early (alive (signal SIGINT)
       (early_at 3 early (alive (signal SIGTERM)
         (early_at 2 early (alive (syslog LOG_INFO ''Daemon started.'' [])
           (early_at 1 early (alive (openlog ''my_daemon'' (LOG_PID OR LOG_NDELAY) LOG_DAEMON)
             (early_at 0 early s))))))))"

text \<open>
  Lines 54 to 58: \<^verbatim>\<open>while (true) { syslog(...); sleep(5); }\<close>. The schedule lists, for
  each pass through the loop in turn, the signal that arrives during its sleep, if any;
  after the end of the list no signal arrives any more. The loop condition is the constant
  \<open>true\<close> and the body has no \<open>break\<close>, so control leaves the loop only when the process
  is no longer running, which is the one case with a result. A run that goes on forever
  has the value \<open>None\<close>.
\<close>

partial_function (option) main_loop :: "delivery option list \<Rightarrow> proc \<Rightarrow> proc option" where
  "main_loop sched s =
     (if status s \<noteq> Running then Some s
      else main_loop (tl sched)
             (sleep 5 (case sched of [] \<Rightarrow> None | d # _ \<Rightarrow> d)
                (syslog LOG_INFO ''Daemon is running...'' [] s)))"

declare main_loop.simps [code]

text \<open>
  The whole of \<open>main\<close>, run with the answers of the operating system, the early
  delivery if there is one, and the schedule of the loop. A process that exited does not
  run the statements that follow the call of \<open>exit\<close>; lines 60 and 61 follow the loop.
\<close>

definition main :: "os \<Rightarrow> delivery option \<Rightarrow> delivery option list \<Rightarrow> proc \<Rightarrow> proc option" where
  "main os early sched s0 =
     (let s1 = main_detach os s0 in
      if status s1 \<noteq> Running then Some s1
      else
        case main_loop sched (main_init early s1) of
          None \<Rightarrow> None
        | Some s2 \<Rightarrow> Some (if status s2 = Running then return_main 0 (closelog s2) else s2))"

subsection \<open>Vocabulary for runs\<close>

text \<open>
  A delivery stops the daemon when it carries one of the two signals \<open>main\<close> installs
  the handler for.
\<close>

fun stops :: "delivery option \<Rightarrow> bool" where
  "stops None = False"
| "stops (Some (t, signum)) = (signum = SIGTERM \<or> signum = SIGINT)"

text \<open>
  A delivery is quiet when the kernel discards the signal: it is not one of the two the
  program catches and its default action is to ignore it. No delivery is quiet as well.
\<close>

fun quiet :: "delivery option \<Rightarrow> bool" where
  "quiet None = True"
| "quiet (Some (t, signum)) =
     (signum \<noteq> SIGTERM \<and> signum \<noteq> SIGINT \<and> default_action signum = Dfl_ignore)"

text \<open>
  The handler for a signal is installed before call number \<open>k\<close> of lines 46 to 51:
  for \<open>SIGTERM\<close> from call 3 on (line 50 is done), for \<open>SIGINT\<close> after the last call.
\<close>

definition installed :: "nat \<Rightarrow> int \<Rightarrow> bool" where
  "installed k signum = (signum = SIGTERM \<and> 3 \<le> k \<or> signum = SIGINT \<and> 4 \<le> k)"

text \<open>
  One pass through the loop that starts at time \<open>c\<close> makes two calls, both in the
  context of \<open>main\<close>: the heartbeat record, then \<open>sleep(5)\<close>. \<open>cycles c k\<close> is the
  trace of \<open>k\<close> undisturbed passes in a row, the first one starting at time \<open>c\<close>.
\<close>

definition heartbeat :: event where
  "heartbeat = Ev_syslog LOG_INFO ''Daemon is running...'' []"

definition cycle_events :: "nat \<Rightarrow> (nat \<times> ctx \<times> event) list" where
  "cycle_events c = [(c, In_main, heartbeat), (c, In_main, Ev_sleep 5)]"

definition cycles :: "nat \<Rightarrow> nat \<Rightarrow> (nat \<times> ctx \<times> event) list" where
  "cycles c k = concat (map (\<lambda>i. cycle_events (c + 5 * i)) [0..<k])"

text \<open>What the trace gains when a stopping signal is delivered at time \<open>c\<close>.\<close>

definition shutdown_events :: "nat \<Rightarrow> int \<Rightarrow> (nat \<times> ctx \<times> event) list" where
  "shutdown_events c signum =
     [(c, In_kernel, Ev_deliver signum),
      (c, In_handler, Ev_syslog LOG_INFO ''Daemon received signal %d, exiting.'' [signum]),
      (c, In_handler, Ev_closelog),
      (c, In_handler, Ev_exit 0)]"

text \<open>The four calls of lines 45 to 51, all made at time 0.\<close>

definition init_events :: "(nat \<times> ctx \<times> event) list" where
  "init_events =
     [(0, In_main, Ev_openlog ''my_daemon'' (LOG_PID OR LOG_NDELAY) LOG_DAEMON),
      (0, In_main, Ev_syslog LOG_INFO ''Daemon started.'' []),
      (0, In_main, Ev_signal SIGTERM), (0, In_main, Ev_signal SIGINT)]"

text \<open>
  The trace entries that can appear after the daemon has detached: the calls of lines 46
  to 57 in the context of \<open>main\<close>, with no \<open>sleep\<close> but \<open>sleep(5)\<close>; the three calls of
  the handler; what the kernel does with a signal.
\<close>

fun after_detach :: "nat \<times> ctx \<times> event \<Rightarrow> bool" where
  "after_detach (t, In_main, Ev_openlog i opt f) = True"
| "after_detach (t, In_main, Ev_syslog p f a) = True"
| "after_detach (t, In_main, Ev_signal g) = True"
| "after_detach (t, In_main, Ev_sleep n) = (n = 5)"
| "after_detach (t, In_handler, Ev_syslog p f a) = True"
| "after_detach (t, In_handler, Ev_closelog) = True"
| "after_detach (t, In_handler, Ev_exit c) = (c = 0)"
| "after_detach (t, In_kernel, Ev_deliver g) = True"
| "after_detach (t, In_kernel, Ev_killed g) = True"
| "after_detach (t, In_kernel, Ev_stopped g) = True"
| "after_detach (t, c, e) = False"

text \<open>
  \<open>grows s r\<close>: the trace of \<open>r\<close> is the trace of \<open>s\<close> followed by such entries only.
  \<open>steady s\<close>: if the process is alive, \<open>main\<close> is executing.
\<close>

definition grows :: "proc \<Rightarrow> proc \<Rightarrow> bool" where
  "grows s r =
     (take (length (trace s)) (trace r) = trace s \<and>
      list_all after_detach (drop (length (trace s)) (trace r)))"

definition steady :: "proc \<Rightarrow> bool" where
  "steady s = (status s = Running \<longrightarrow> cur_ctx s = In_main)"

text \<open>
  A delivery is handled when no default action ends or stops the process for it: in the
  loop, where both handlers are installed, it is quiet or one of the two caught signals;
  before the loop, it is quiet or its handler is already installed.
\<close>

fun handled :: "delivery option \<Rightarrow> bool" where
  "handled d = (quiet d \<or> stops d)"

fun handled_early :: "delivery option \<Rightarrow> bool" where
  "handled_early None = True"
| "handled_early (Some (k, signum)) = (quiet (Some (k, signum)) \<or> installed k signum)"

text \<open>The calls a process has made in one context, in order, without their times.\<close>

definition calls_in :: "ctx \<Rightarrow> proc \<Rightarrow> event list" where
  "calls_in c s = map (\<lambda>x. snd (snd x)) (filter (\<lambda>x. fst (snd x) = c) (trace s))"

text \<open>
  The state in which the loop runs: the process is alive, \<open>main\<close> is executing, and
  exactly the two signals are caught.
\<close>

definition serving :: "proc \<Rightarrow> bool" where
  "serving s = (status s = Running \<and> cur_ctx s = In_main \<and> set (caught s) = {SIGTERM, SIGINT})"

section \<open>The routable service (src/lib/http/include/service/server.hpp)\<close>

text \<open>
  The header declares the class \<open>HttpServer\<close>: a constructor that takes the address and
  the port, \<open>start\<close>, \<open>stop\<close>, the pure virtual hook \<open>setup_routes\<close>, \<open>add_route\<close> and
  the listener member. The bodies of the member functions are in no file of the
  repository. Each operation below is therefore written from section 4.2 of the
  specification, under the names of the header; the specification calls them
  \<open>construct\<close>, \<open>registerRoute\<close>, \<open>start\<close> and \<open>stop\<close>. A failure is the value \<open>Inl\<close> of
  an error and leaves the service object as it was.
\<close>

text \<open>Modelled from the spec: the errors of section 7 that the service reports.\<close>

datatype service_error = ConfigurationError | LifecycleError | BindError

type_synonym route_key = "string \<times> string"  \<comment> \<open>path and method\<close>

text \<open>Modelled from the spec: the two requests the service makes of the external listener
  (section 6), to open an endpoint, which yields a handle, and to close one.\<close>

datatype listener_call = Opened string int nat | Closed nat

text \<open>Modelled from the spec: the state of a service, which the header leaves to the
  listener member: the bind parameters, the RouteRegistry and the ListenerHandle of
  section 3. The header passes the port as a string; the specification speaks of its
  number, which is what the model keeps.\<close>

record 'h service =
  address :: string
  port :: int
  registry :: "route_key \<rightharpoonup> 'h"
  started :: bool                          \<comment> \<open>serving has begun: the registry is frozen\<close>
  listener :: "nat option"                 \<comment> \<open>the handle of the open endpoint\<close>
  listener_calls :: "listener_call list"   \<comment> \<open>what the external listener was asked to do\<close>

text \<open>Modelled from the spec: the range of a well-formed port. The specification says
  "port in the valid range" without numbers; the TCP port numbers 1 to 65535 are taken.
\<close>

definition valid_port :: "int \<Rightarrow> bool" where
  "valid_port p = (1 \<le> p \<and> p \<le> 65535)"

text \<open>Modelled from the spec: the "recognized HTTP verbs" of \<open>registerRoute\<close>. The
  specification does not list them; the methods of RFC 9110 and \<open>PATCH\<close> are taken.
\<close>

definition recognized_methods :: "string list" where
  "recognized_methods =
     [''GET'', ''HEAD'', ''POST'', ''PUT'', ''DELETE'', ''CONNECT'', ''OPTIONS'', ''TRACE'', ''PATCH'']"

text \<open>Modelled from the spec: the body of the constructor \<open>HttpServer(address, port)\<close>, which
  is missing. "Validates the two parameters are well-formed (non-empty address, port in
  the valid range); fails with a ConfigurationError otherwise. Does not yet bind a
  socket."
\<close>

definition HttpServer :: "string \<Rightarrow> int \<Rightarrow> service_error + 'h service" where
  "HttpServer addr p =
     (if addr \<noteq> [] \<and> valid_port p
      then Inr \<lparr>address = addr, port = p, registry = Map.empty, started = False,
                listener = None, listener_calls = []\<rparr>
      else Inl ConfigurationError)"

text \<open>Modelled from the spec: the body of \<open>add_route\<close>, which is missing. "Adds an entry to
  the RouteRegistry. Must only be called before start(); calling after start() fails with
  a LifecycleError. Constraint: path must be non-empty and method one of the recognized
  HTTP verbs; violating either fails with ConfigurationError." A key that is registered
  again replaces the earlier handler, the policy the specification recommends.
\<close>

definition add_route :: "string \<Rightarrow> string \<Rightarrow> 'h \<Rightarrow> 'h service \<Rightarrow> service_error + 'h service" where
  "add_route path method handler s =
     (if started s then Inl LifecycleError
      else if path = [] \<or> method \<notin> set recognized_methods then Inl ConfigurationError
      else Inr (s\<lparr>registry := (registry s)((path, method) \<mapsto> handler)\<rparr>))"

text \<open>Modelled from the spec: the body of \<open>start\<close>, which is missing. "Invokes the
  subclass-provided route-setup hook, then binds and opens the listening endpoint using
  the external listener capability, then blocks the calling context until stop() is
  invoked. Fails with BindError if the endpoint cannot be opened." The hook and the
  capability to open an endpoint are parameters; the result is the service while it
  serves.
\<close>

definition start ::
  "('h service \<Rightarrow> service_error + 'h service) \<Rightarrow> (string \<Rightarrow> int \<Rightarrow> nat option) \<Rightarrow>
   'h service \<Rightarrow> service_error + 'h service" where
  "start setup_routes open_endpoint s =
     (case setup_routes s of
        Inl e \<Rightarrow> Inl e
      | Inr s1 \<Rightarrow>
          (case open_endpoint (address s1) (port s1) of
             None \<Rightarrow> Inl BindError
           | Some h \<Rightarrow>
               Inr (s1\<lparr>started := True, listener := Some h,
                        listener_calls := listener_calls s1 @ [Opened (address s1) (port s1) h]\<rparr>)))"

text \<open>Modelled from the spec: the body of \<open>stop\<close>, which is missing. "Requests the listening
  endpoint close and the blocking call in start() to return. Idempotent: calling it
  multiple times, or before start(), has no additional effect beyond the first."
\<close>

definition stop :: "'h service \<Rightarrow> 'h service" where
  "stop s =
     (case listener s of
        None \<Rightarrow> s
      | Some h \<Rightarrow> s\<lparr>listener := None, listener_calls := listener_calls s @ [Closed h]\<rparr>)"

text \<open>The service object after a call: a call that fails leaves it as it was.\<close>

definition after_call :: "'h service \<Rightarrow> service_error + 'h service \<Rightarrow> 'h service" where
  "after_call s r = (case r of Inl e \<Rightarrow> s | Inr s' \<Rightarrow> s')"

section \<open>Lemmas about the daemon\<close>

subsection \<open>What each library call changes\<close>

lemma emit_in_sel [simp]:
  "status (emit_in c e s) = status s" "clock (emit_in c e s) = clock s"
  "cur_ctx (emit_in c e s) = cur_ctx s" "trace (emit_in c e s) = trace s @ [(clock s, c, e)]"
  "own_session (emit_in c e s) = own_session s" "cwd (emit_in c e s) = cwd s"
  "fds (emit_in c e s) = fds s" "log_open (emit_in c e s) = log_open s"
  "caught (emit_in c e s) = caught s"
  by (simp_all add: emit_in_def)

lemma emit_sel [simp]:
  "status (emit e s) = status s" "clock (emit e s) = clock s"
  "cur_ctx (emit e s) = cur_ctx s" "trace (emit e s) = trace s @ [(clock s, cur_ctx s, e)]"
  "own_session (emit e s) = own_session s" "cwd (emit e s) = cwd s"
  "fds (emit e s) = fds s" "log_open (emit e s) = log_open s"
  "caught (emit e s) = caught s"
  by (simp_all add: emit_def)

lemma fork_sel [simp]:
  "status (fork r s) = status s" "clock (fork r s) = clock s"
  "cur_ctx (fork r s) = cur_ctx s" "trace (fork r s) = trace s @ [(clock s, cur_ctx s, Ev_fork r)]"
  "own_session (fork r s) = own_session s" "cwd (fork r s) = cwd s"
  "fds (fork r s) = fds s" "log_open (fork r s) = log_open s"
  "caught (fork r s) = caught s"
  by (simp_all add: fork_def)

lemma setsid_sel [simp]:
  "status (setsid r s) = status s" "clock (setsid r s) = clock s"
  "cur_ctx (setsid r s) = cur_ctx s" "trace (setsid r s) = trace s @ [(clock s, cur_ctx s, Ev_setsid r)]"
  "own_session (setsid r s) = (if r < 0 then own_session s else True)" "cwd (setsid r s) = cwd s"
  "fds (setsid r s) = fds s" "log_open (setsid r s) = log_open s"
  "caught (setsid r s) = caught s"
  by (simp_all add: setsid_def)

lemma chdir_sel [simp]:
  "status (chdir p r s) = status s" "clock (chdir p r s) = clock s"
  "cur_ctx (chdir p r s) = cur_ctx s" "trace (chdir p r s) = trace s @ [(clock s, cur_ctx s, Ev_chdir p r)]"
  "own_session (chdir p r s) = own_session s" "cwd (chdir p r s) = (if r < 0 then cwd s else p)"
  "fds (chdir p r s) = fds s" "log_open (chdir p r s) = log_open s"
  "caught (chdir p r s) = caught s"
  by (simp_all add: chdir_def)

lemma close_sel [simp]:
  "status (close fd s) = status s" "clock (close fd s) = clock s"
  "cur_ctx (close fd s) = cur_ctx s" "trace (close fd s) = trace s @ [(clock s, cur_ctx s, Ev_close fd)]"
  "own_session (close fd s) = own_session s" "cwd (close fd s) = cwd s"
  "fds (close fd s) = removeAll fd (fds s)" "log_open (close fd s) = log_open s"
  "caught (close fd s) = caught s"
  by (simp_all add: close_def)

lemma openlog_sel [simp]:
  "status (openlog i opt f s) = status s" "clock (openlog i opt f s) = clock s"
  "cur_ctx (openlog i opt f s) = cur_ctx s"
  "trace (openlog i opt f s) = trace s @ [(clock s, cur_ctx s, Ev_openlog i opt f)]"
  "own_session (openlog i opt f s) = own_session s" "cwd (openlog i opt f s) = cwd s"
  "fds (openlog i opt f s) = fds s" "log_open (openlog i opt f s) = True"
  "caught (openlog i opt f s) = caught s"
  by (simp_all add: openlog_def)

lemma syslog_sel [simp]:
  "status (syslog p f a s) = status s" "clock (syslog p f a s) = clock s"
  "cur_ctx (syslog p f a s) = cur_ctx s"
  "trace (syslog p f a s) = trace s @ [(clock s, cur_ctx s, Ev_syslog p f a)]"
  "own_session (syslog p f a s) = own_session s" "cwd (syslog p f a s) = cwd s"
  "fds (syslog p f a s) = fds s" "log_open (syslog p f a s) = True"
  "caught (syslog p f a s) = caught s"
  by (simp_all add: syslog_def)

lemma closelog_sel [simp]:
  "status (closelog s) = status s" "clock (closelog s) = clock s"
  "cur_ctx (closelog s) = cur_ctx s"
  "trace (closelog s) = trace s @ [(clock s, cur_ctx s, Ev_closelog)]"
  "own_session (closelog s) = own_session s" "cwd (closelog s) = cwd s"
  "fds (closelog s) = fds s" "log_open (closelog s) = False"
  "caught (closelog s) = caught s"
  by (simp_all add: closelog_def)

lemma signal_sel [simp]:
  "status (signal g s) = status s" "clock (signal g s) = clock s"
  "cur_ctx (signal g s) = cur_ctx s"
  "trace (signal g s) = trace s @ [(clock s, cur_ctx s, Ev_signal g)]"
  "own_session (signal g s) = own_session s" "cwd (signal g s) = cwd s"
  "fds (signal g s) = fds s" "log_open (signal g s) = log_open s"
  "caught (signal g s) = List.insert g (caught s)"
  by (simp_all add: signal_def)

lemma exit_sel [simp]:
  "status (exit c s) = Exited c" "clock (exit c s) = clock s"
  "cur_ctx (exit c s) = cur_ctx s"
  "trace (exit c s) = trace s @ [(clock s, cur_ctx s, Ev_exit c)]"
  "own_session (exit c s) = own_session s" "cwd (exit c s) = cwd s"
  "fds (exit c s) = fds s" "log_open (exit c s) = log_open s"
  "caught (exit c s) = caught s"
  by (simp_all add: exit_def)

lemma return_main_sel [simp]:
  "status (return_main c s) = Exited c" "clock (return_main c s) = clock s"
  "cur_ctx (return_main c s) = cur_ctx s"
  "trace (return_main c s) = trace s @ [(clock s, cur_ctx s, Ev_return c)]"
  by (simp_all add: return_main_def)

lemma foreground_sel [simp]:
  "status (foreground d ds) = Running" "clock (foreground d ds) = 0"
  "cur_ctx (foreground d ds) = In_main" "trace (foreground d ds) = []"
  "own_session (foreground d ds) = False" "cwd (foreground d ds) = d"
  "fds (foreground d ds) = ds" "log_open (foreground d ds) = False"
  "caught (foreground d ds) = []"
  by (simp_all add: foreground_def)

subsection \<open>The handler and one pass through the loop\<close>

lemma handler_stop:
  assumes "signum = SIGTERM \<or> signum = SIGINT"
  shows "signal_handler signum s =
           exit 0 (closelog (syslog LOG_INFO ''Daemon received signal %d, exiting.'' [signum] s))"
  using assms by (simp add: signal_handler_def)

lemma deliver_stop:
  assumes "signum = SIGTERM \<or> signum = SIGINT"
  shows "status (deliver signum s) = Exited 0"
    and "clock (deliver signum s) = clock s"
    and "trace (deliver signum s) = trace s @ shutdown_events (clock s) signum"
    and "log_open (deliver signum s) = False"
    and "cur_ctx (deliver signum s) = In_handler"
  using assms by (simp_all add: deliver_def handler_stop shutdown_events_def)

lemma pass_quiet:
  assumes "serving s" and "quiet d"
  defines "s' \<equiv> sleep 5 d (syslog LOG_INFO ''Daemon is running...'' [] s)"
  shows "serving s'" and "clock s' = clock s + 5"
    and "trace s' = trace s @ cycle_events (clock s)"
proof -
  have "s' = (emit (Ev_sleep 5) (syslog LOG_INFO ''Daemon is running...'' [] s))
               \<lparr>clock := clock s + 5\<rparr>"
  proof (cases d)
    case None
    then show ?thesis by (simp add: s'_def sleep_def)
  next
    case (Some p)
    obtain t g where p: "p = (t, g)" by (cases p)
    with Some assms(2) have "g \<notin> {SIGTERM, SIGINT}" and "default_action g = Dfl_ignore"
      by simp_all
    with assms(1) have "g \<notin> set (caught s)" and "default_action g = Dfl_ignore"
      by (simp_all add: serving_def)
    with Some p show ?thesis by (simp add: s'_def sleep_def)
  qed
  with assms(1) show "serving s'" and "clock s' = clock s + 5"
    and "trace s' = trace s @ cycle_events (clock s)"
    by (simp_all add: serving_def cycle_events_def heartbeat_def)
qed

lemma pass_stop:
  fixes t :: nat
  assumes "serving s" and "signum = SIGTERM \<or> signum = SIGINT"
  defines "s' \<equiv> sleep 5 (Some (t, signum)) (syslog LOG_INFO ''Daemon is running...'' [] s)"
  shows "status s' = Exited 0" and "clock s' = clock s + min t 5"
    and "trace s' = trace s @ cycle_events (clock s) @ shutdown_events (clock s + min t 5) signum"
    and "log_open s' = False"
proof -
  from assms(1,2) have c: "signum \<in> set (caught s)" by (auto simp: serving_def)
  have "s' = deliver signum ((emit (Ev_sleep 5) (syslog LOG_INFO ''Daemon is running...'' [] s))
               \<lparr>clock := clock s + min t 5\<rparr>)"
    using c by (simp add: s'_def sleep_def arrives_def)
  with assms(1,2) show "status s' = Exited 0" and "clock s' = clock s + min t 5"
    and "trace s' = trace s @ cycle_events (clock s) @ shutdown_events (clock s + min t 5) signum"
    and "log_open s' = False"
    by (simp_all add: deliver_stop serving_def cycle_events_def heartbeat_def)
qed

lemma cycles_0 [simp]: "cycles c 0 = []"
  by (simp add: cycles_def)

lemma cycles_Suc: "cycles c (Suc k) = cycle_events c @ cycles (c + 5) k"
proof -
  have "[0..<Suc k] = 0 # map Suc [0..<k]"
    by (simp add: upt_conv_Cons map_Suc_upt del: upt_Suc)
  then show ?thesis
    by (simp add: cycles_def o_def add.assoc del: upt_Suc)
qed

lemma loop_stops:
  assumes "serving s" and "\<forall>d\<in>set pre. quiet d" and "signum = SIGTERM \<or> signum = SIGINT"
  shows "\<exists>r. main_loop (pre @ Some (t, signum) # post) s = Some r \<and> status r = Exited 0 \<and>
           clock r = clock s + 5 * length pre + min t 5 \<and>
           trace r = trace s @ cycles (clock s) (length pre) @ cycle_events (clock s + 5 * length pre)
                       @ shutdown_events (clock s + 5 * length pre + min t 5) signum \<and>
           log_open r = False"
  using assms(1,2)
proof (induction pre arbitrary: s)
  case Nil
  let ?s' = "sleep 5 (Some (t, signum)) (syslog LOG_INFO ''Daemon is running...'' [] s)"
  from Nil have run: "status s = Running" by (simp add: serving_def)
  have ex: "status ?s' \<noteq> Running" using pass_stop(1)[OF Nil(1) assms(3)] by simp
  have "main_loop (Some (t, signum) # post) s = main_loop post ?s'"
    using run by (subst main_loop.simps) simp
  also have "\<dots> = Some ?s'" using ex by (subst main_loop.simps) simp
  finally show ?case using pass_stop[OF Nil(1) assms(3), of t] by simp
next
  case (Cons d pre)
  let ?s' = "sleep 5 d (syslog LOG_INFO ''Daemon is running...'' [] s)"
  from Cons.prems have run: "status s = Running" and q: "quiet d"
    and rest: "\<forall>d\<in>set pre. quiet d" by (simp_all add: serving_def)
  note p = pass_quiet[OF Cons.prems(1) q]
  have unf: "main_loop ((d # pre) @ Some (t, signum) # post) s
        = main_loop (pre @ Some (t, signum) # post) ?s'"
    using run by (subst main_loop.simps) simp
  from Cons.IH[OF p(1) rest] obtain r where
    r: "main_loop (pre @ Some (t, signum) # post) ?s' = Some r" "status r = Exited 0"
       "clock r = clock ?s' + 5 * length pre + min t 5"
       "trace r = trace ?s' @ cycles (clock ?s') (length pre) @ cycle_events (clock ?s' + 5 * length pre)
                       @ shutdown_events (clock ?s' + 5 * length pre + min t 5) signum"
       "log_open r = False"
    by blast
  show ?case
    using unf r p(2,3) by (simp add: cycles_Suc add.assoc add.commute add.left_commute)
qed

lemma loop_result_exited:
  assumes "main_loop sched s = Some r"
  shows "status r \<noteq> Running"
  by (rule main_loop.raw_induct[OF _ assms]) (auto split: if_splits)

lemma loop_dead:
  assumes "status s \<noteq> Running"
  shows "main_loop sched s = Some s"
  using assms by (subst main_loop.simps) simp

lemma loop_forever:
  assumes "serving s" and "\<forall>d\<in>set sched. quiet d"
  shows "main_loop sched s = None"
proof -
  have "serving s \<longrightarrow> (\<forall>d\<in>set sched. quiet d) \<longrightarrow> False" if "main_loop sched s = Some r" for r
  proof (rule main_loop.raw_induct[OF _ that])
    fix f :: "delivery option list \<Rightarrow> proc \<Rightarrow> proc option" and sched s r
    assume IH: "\<And>sched s r. f sched s = Some r \<Longrightarrow> serving s \<longrightarrow> (\<forall>d\<in>set sched. quiet d) \<longrightarrow> False"
      and body: "(if status s \<noteq> Running then Some s
                  else f (tl sched) (sleep 5 (case sched of [] \<Rightarrow> None | d # _ \<Rightarrow> d)
                         (syslog LOG_INFO ''Daemon is running...'' [] s))) = Some r"
    show "serving s \<longrightarrow> (\<forall>d\<in>set sched. quiet d) \<longrightarrow> False"
    proof (intro impI)
      assume sv: "serving s" and q: "\<forall>d\<in>set sched. quiet d"
      let ?d = "case sched of [] \<Rightarrow> None | d # _ \<Rightarrow> d"
      let ?s' = "sleep 5 ?d (syslog LOG_INFO ''Daemon is running...'' [] s)"
      from sv have "status s = Running" by (simp add: serving_def)
      with body have call: "f (tl sched) ?s' = Some r" by simp
      from q have qd: "quiet ?d" by (cases sched) simp_all
      from q have qt: "\<forall>d\<in>set (tl sched). quiet d" by (cases sched) simp_all
      from IH[OF call] pass_quiet(1)[OF sv qd] qt show False by blast
    qed
  qed
  with assms show ?thesis by (cases "main_loop sched s") auto
qed

subsection \<open>What can enter the trace after detaching\<close>

lemma grows_iff:
  "grows s r \<longleftrightarrow> (\<exists>extra. trace r = trace s @ extra \<and> list_all after_detach extra)"
proof
  assume "grows s r"
  then have "trace r = trace s @ drop (length (trace s)) (trace r)"
    and "list_all after_detach (drop (length (trace s)) (trace r))"
    by (simp_all add: grows_def) (metis append_take_drop_id)
  then show "\<exists>extra. trace r = trace s @ extra \<and> list_all after_detach extra" by blast
next
  assume "\<exists>extra. trace r = trace s @ extra \<and> list_all after_detach extra"
  then show "grows s r" by (auto simp: grows_def)
qed

lemma grows_refl [simp]: "grows s s"
  by (simp add: grows_iff)

lemma grows_trans: "grows a b \<Longrightarrow> grows b c \<Longrightarrow> grows a c"
  by (auto simp: grows_iff)

lemma grows_handler:
  assumes "cur_ctx s = In_handler"
  shows "grows s (signal_handler g s)" and "cur_ctx (signal_handler g s) = In_handler"
  using assms by (simp_all add: signal_handler_def grows_iff)

lemma grows_deliver:
  shows "grows s (deliver g s)"
    and "status s = Running \<Longrightarrow> status (deliver g s) = Running \<Longrightarrow> cur_ctx (deliver g s) = cur_ctx s"
proof -
  let ?s1 = "(emit_in In_kernel (Ev_deliver g) s)\<lparr>cur_ctx := In_handler\<rparr>"
  have a: "grows s ?s1" by (simp add: grows_iff)
  have b: "grows ?s1 (signal_handler g ?s1)" by (rule grows_handler) simp
  have "trace (deliver g s) = trace (signal_handler g ?s1)" by (simp add: deliver_def Let_def)
  with grows_trans[OF a b] show "grows s (deliver g s)" by (simp add: grows_iff)
  show "status s = Running \<Longrightarrow> status (deliver g s) = Running \<Longrightarrow> cur_ctx (deliver g s) = cur_ctx s"
    by (simp add: deliver_def Let_def split: if_splits)
qed

lemma steady_arrives:
  assumes "steady s" and "status s = Running"
  shows "grows s (arrives g s)" and "steady (arrives g s)"
proof -
  show "grows s (arrives g s)"
    using grows_deliver(1)[of s g]
    by (auto simp: arrives_def grows_iff split: default_action.splits)
  show "steady (arrives g s)"
    using assms grows_deliver(2)[of s g]
    by (auto simp: arrives_def steady_def split: default_action.splits)
qed

lemma steady_early_at:
  assumes "steady s"
  shows "grows s (early_at k early s)" and "steady (early_at k early s)"
  using assms steady_arrives[of s]
  by (auto simp: early_at_def alive_def split: option.splits)

lemma steady_pass:
  fixes d :: "delivery option"
  assumes "steady s" and "status s = Running"
  defines "s' \<equiv> sleep 5 d (syslog LOG_INFO ''Daemon is running...'' [] s)"
  shows "grows s s'" and "steady s'"
proof -
  let ?s1 = "emit (Ev_sleep 5) (syslog LOG_INFO ''Daemon is running...'' [] s)"
  from assms(1,2) have c: "cur_ctx s = In_main" by (simp add: steady_def)
  have g1: "grows s (?s1\<lparr>clock := n\<rparr>)" for n
    using c by (simp add: grows_iff)
  have st: "steady (?s1\<lparr>clock := n\<rparr>)" "status (?s1\<lparr>clock := n\<rparr>) = Running" for n
    using assms(1,2) by (simp_all add: steady_def)
  show "grows s s'"
    using g1 steady_arrives(1)[OF st]
    by (auto simp: s'_def sleep_def Let_def split: option.splits intro: grows_trans)
  show "steady s'"
    using st steady_arrives(2)[OF st]
    by (auto simp: s'_def sleep_def Let_def split: option.splits)
qed

lemma grows_loop:
  assumes "main_loop sched s = Some r"
  shows "steady s \<longrightarrow> grows s r"
proof (rule main_loop.raw_induct[OF _ assms])
  fix f :: "delivery option list \<Rightarrow> proc \<Rightarrow> proc option" and sched s r
  assume IH: "\<And>sched s r. f sched s = Some r \<Longrightarrow> steady s \<longrightarrow> grows s r"
    and body: "(if status s \<noteq> Running then Some s
                else f (tl sched) (sleep 5 (case sched of [] \<Rightarrow> None | d # _ \<Rightarrow> d)
                       (syslog LOG_INFO ''Daemon is running...'' [] s))) = Some r"
  show "steady s \<longrightarrow> grows s r"
  proof
    assume sd: "steady s"
    show "grows s r"
    proof (cases "status s = Running")
      case False
      with body show ?thesis by simp
    next
      case True
      let ?s' = "sleep 5 (case sched of [] \<Rightarrow> None | d # _ \<Rightarrow> d)
                       (syslog LOG_INFO ''Daemon is running...'' [] s)"
      from True body have call: "f (tl sched) ?s' = Some r" by simp
      from IH[OF call] steady_pass[OF sd True] show ?thesis by (blast intro: grows_trans)
    qed
  qed
qed

lemma steady_init:
  assumes "steady s"
  shows "grows s (main_init early s)" and "steady (main_init early s)"
proof -
  have op: "grows x (alive (openlog i opt fa) x) \<and> steady (alive (openlog i opt fa) x)"
    if "steady x" for x i opt fa
    using that by (auto simp: alive_def steady_def grows_iff)
  have sy: "grows x (alive (syslog pr fm ar) x) \<and> steady (alive (syslog pr fm ar) x)"
    if "steady x" for x pr fm ar
    using that by (auto simp: alive_def steady_def grows_iff)
  have sg: "grows x (alive (signal g) x) \<and> steady (alive (signal g) x)"
    if "steady x" for x g
    using that by (auto simp: alive_def steady_def grows_iff)
  have ea: "grows x (early_at k early x) \<and> steady (early_at k early x)"
    if "steady x" for x k
    using steady_early_at[OF that] by simp
  let ?a0 = "early_at 0 early s"
  let ?a1 = "early_at 1 early (alive (openlog ''my_daemon'' (LOG_PID OR LOG_NDELAY) LOG_DAEMON) ?a0)"
  let ?a2 = "early_at 2 early (alive (syslog LOG_INFO ''Daemon started.'' []) ?a1)"
  let ?a3 = "early_at 3 early (alive (signal SIGTERM) ?a2)"
  let ?a4 = "early_at 4 early (alive (signal SIGINT) ?a3)"
  have s0: "grows s ?a0 \<and> steady ?a0" using ea[OF assms] .
  have s1: "grows s ?a1 \<and> steady ?a1"
    using s0 op[of ?a0] ea[of "alive (openlog ''my_daemon'' (LOG_PID OR LOG_NDELAY) LOG_DAEMON) ?a0" 1]
    by (blast intro: grows_trans)
  have s2: "grows s ?a2 \<and> steady ?a2"
    using s1 sy[of ?a1] ea[of "alive (syslog LOG_INFO ''Daemon started.'' []) ?a1" 2]
    by (blast intro: grows_trans)
  have s3: "grows s ?a3 \<and> steady ?a3"
    using s2 sg[of ?a2] ea[of "alive (signal SIGTERM) ?a2" 3]
    by (blast intro: grows_trans)
  have s4: "grows s ?a4 \<and> steady ?a4"
    using s3 sg[of ?a3] ea[of "alive (signal SIGINT) ?a3" 4]
    by (blast intro: grows_trans)
  from s4 show "grows s (main_init early s)" and "steady (main_init early s)"
    by (simp_all add: main_init_def)
qed

subsection \<open>Lines 16 to 51\<close>

lemma detach_running_iff:
  "status (main_detach os s) = Running \<longleftrightarrow>
     status s = Running \<and> fork_ret os = 0 \<and> 0 \<le> setsid_ret os \<and> 0 \<le> chdir_ret os"
  by (auto simp: main_detach_def Let_def)

lemma detach_child:
  assumes "fork_ret os = 0" and "0 \<le> setsid_ret os" and "0 \<le> chdir_ret os"
  shows "main_detach os s =
           close STDERR_FILENO (close STDOUT_FILENO (close STDIN_FILENO
             (chdir ''/'' (chdir_ret os) (setsid (setsid_ret os) (fork 0 s)))))"
  using assms by (simp add: main_detach_def Let_def)

lemma detach_trace:
  assumes "status (main_detach os (foreground dir ds)) = Running"
  shows "trace (main_detach os (foreground dir ds)) =
           [(0, In_main, Ev_fork 0), (0, In_main, Ev_setsid (setsid_ret os)),
            (0, In_main, Ev_chdir ''/'' (chdir_ret os)), (0, In_main, Ev_close STDIN_FILENO),
            (0, In_main, Ev_close STDOUT_FILENO), (0, In_main, Ev_close STDERR_FILENO)]"
proof -
  from assms have ok: "fork_ret os = 0" "0 \<le> setsid_ret os" "0 \<le> chdir_ret os"
    by (simp_all add: detach_running_iff)
  show ?thesis by (simp add: detach_child[OF ok])
qed

lemma detach_frame:
  assumes "status (main_detach os (foreground dir ds)) = Running"
  shows "clock (main_detach os (foreground dir ds)) = 0"
    and "cur_ctx (main_detach os (foreground dir ds)) = In_main"
    and "caught (main_detach os (foreground dir ds)) = []"
proof -
  from assms have ok: "fork_ret os = 0" "0 \<le> setsid_ret os" "0 \<le> chdir_ret os"
    by (simp_all add: detach_running_iff)
  show "clock (main_detach os (foreground dir ds)) = 0"
    and "cur_ctx (main_detach os (foreground dir ds)) = In_main"
    and "caught (main_detach os (foreground dir ds)) = []"
    by (simp_all add: detach_child[OF ok])
qed

lemma detach_no_sleep:
  "(t, c, Ev_sleep n) \<notin> set (trace (main_detach os (foreground dir ds)))"
  by (simp add: main_detach_def Let_def)

lemma early_at_quiet:
  assumes "quiet early" and "set (caught s) \<subseteq> {SIGTERM, SIGINT}"
  shows "early_at k early s = s"
proof (cases early)
  case None
  then show ?thesis by (simp add: early_at_def)
next
  case (Some p)
  obtain k' g where p: "p = (k', g)" by (cases p)
  with Some assms(1) have "g \<noteq> SIGTERM" "g \<noteq> SIGINT" "default_action g = Dfl_ignore"
    by simp_all
  with assms(2) have "arrives g s = s" by (auto simp: arrives_def)
  with Some p show ?thesis by (simp add: early_at_def alive_def)
qed

lemma init_quiet:
  assumes "status s = Running" and "caught s = []" and "quiet early"
  shows "main_init early s =
           signal SIGINT (signal SIGTERM (syslog LOG_INFO ''Daemon started.'' []
             (openlog ''my_daemon'' (LOG_PID OR LOG_NDELAY) LOG_DAEMON s)))"
  using assms by (simp add: main_init_def early_at_quiet alive_def)

lemma init_after_detach:
  assumes "status (main_detach os (foreground dir ds)) = Running" and "quiet early"
  defines "s \<equiv> main_init early (main_detach os (foreground dir ds))"
  shows "serving s" and "clock s = 0"
    and "trace s = trace (main_detach os (foreground dir ds)) @ init_events"
  using assms(1) detach_frame[OF assms(1)]
  by (auto simp: s_def init_quiet[OF assms(1) detach_frame(3)[OF assms(1)] assms(2)]
        serving_def init_events_def)

lemma init_installed:
  assumes "status (main_detach os (foreground dir ds)) = Running" and "installed k signum"
  defines "s \<equiv> main_init (Some (k, signum)) (main_detach os (foreground dir ds))"
  shows "status s = Exited 0" and "clock s = 0"
    and "trace s = trace (main_detach os (foreground dir ds)) @ take (min k 4) init_events
                     @ shutdown_events 0 signum"
proof -
  let ?d = "main_detach os (foreground dir ds)"
  note f = detach_frame[OF assms(1)]
  have sig: "signum = SIGTERM \<or> signum = SIGINT" using assms(2) by (auto simp: installed_def)
  consider (three) "k = 3 \<and> signum = SIGTERM" | (four) "4 \<le> k"
    using assms(2) by (cases "k = 3") (auto simp: installed_def)
  then have "status s = Exited 0 \<and> clock s = 0 \<and>
     trace s = trace ?d @ take (min k 4) init_events @ shutdown_events 0 signum"
  proof cases
    case three
    have "s = deliver SIGTERM (signal SIGTERM (syslog LOG_INFO ''Daemon started.'' []
             (openlog ''my_daemon'' (LOG_PID OR LOG_NDELAY) LOG_DAEMON ?d)))"
      using assms(1) three
      by (simp add: s_def main_init_def early_at_def alive_def arrives_def deliver_stop)
    then show ?thesis
      using three f assms(1) by (simp add: deliver_stop init_events_def)
  next
    case four
    then have m: "min k 4 = 4" by simp
    have "s = deliver signum (signal SIGINT (signal SIGTERM (syslog LOG_INFO ''Daemon started.'' []
             (openlog ''my_daemon'' (LOG_PID OR LOG_NDELAY) LOG_DAEMON ?d))))"
      using assms(1) sig
      by (auto simp: s_def main_init_def early_at_def m alive_def arrives_def)
    then show ?thesis
      using f assms(1) sig by (simp add: deliver_stop init_events_def m)
  qed
  then show "status s = Exited 0" and "clock s = 0"
    and "trace s = trace ?d @ take (min k 4) init_events @ shutdown_events 0 signum"
    by simp_all
qed

subsection \<open>Whole runs\<close>

lemma main_stops:
  assumes "status (main_detach os (foreground dir ds)) = Running" and "quiet early"
    and "\<forall>d\<in>set pre. quiet d" and "signum = SIGTERM \<or> signum = SIGINT"
  shows "\<exists>p. main os early (pre @ Some (t, signum) # post) (foreground dir ds) = Some p \<and>
           status p = Exited 0 \<and> clock p = 5 * length pre + min t 5 \<and>
           trace p = trace (main_detach os (foreground dir ds)) @ init_events
                       @ cycles 0 (length pre) @ cycle_events (5 * length pre)
                       @ shutdown_events (5 * length pre + min t 5) signum \<and>
           log_open p = False"
proof -
  note i = init_after_detach[OF assms(1,2)]
  from loop_stops[OF i(1) assms(3,4), of t post] obtain r where
    r: "main_loop (pre @ Some (t, signum) # post) (main_init early (main_detach os (foreground dir ds))) = Some r"
       "status r = Exited 0" "clock r = 5 * length pre + min t 5"
       "trace r = trace (main_detach os (foreground dir ds)) @ init_events
                       @ cycles 0 (length pre) @ cycle_events (5 * length pre)
                       @ shutdown_events (5 * length pre + min t 5) signum"
       "log_open r = False"
    by (auto simp: i(2,3))
  have "main os early (pre @ Some (t, signum) # post) (foreground dir ds) = Some r"
    using assms(1) r(1,2) by (simp add: main_def Let_def)
  with r show ?thesis by blast
qed

lemma main_early_exit:
  assumes "status (main_detach os (foreground dir ds)) = Running" and "installed k signum"
  shows "\<exists>p. main os (Some (k, signum)) sched (foreground dir ds) = Some p \<and>
           status p = Exited 0 \<and> clock p = 0 \<and>
           trace p = trace (main_detach os (foreground dir ds)) @ take (min k 4) init_events
                       @ shutdown_events 0 signum"
proof -
  let ?r = "main_init (Some (k, signum)) (main_detach os (foreground dir ds))"
  note i = init_installed[OF assms]
  have "main_loop sched ?r = Some ?r" by (rule loop_dead) (simp add: i(1))
  then have "main os (Some (k, signum)) sched (foreground dir ds) = Some ?r"
    using assms(1) i(1) by (simp add: main_def Let_def)
  with i show ?thesis by blast
qed

lemma main_forever:
  assumes "status (main_detach os (foreground dir ds)) = Running" and "quiet early"
    and "\<forall>d\<in>set sched. quiet d"
  shows "main os early sched (foreground dir ds) = None"
  using assms(1) loop_forever[OF init_after_detach(1)[OF assms(1,2)] assms(3)]
  by (simp add: main_def Let_def)

lemma main_result:
  assumes "status (main_detach os (foreground dir ds)) = Running"
    and "main os early sched (foreground dir ds) = Some p"
  shows "main_loop sched (main_init early (main_detach os (foreground dir ds))) = Some p"
proof -
  from assms obtain r where
    r: "main_loop sched (main_init early (main_detach os (foreground dir ds))) = Some r"
       "p = (if status r = Running then return_main 0 (closelog r) else r)"
    by (auto simp: main_def Let_def split: option.splits)
  from loop_result_exited[OF r(1)] r show ?thesis by simp
qed

lemma run_grows:
  assumes "status (main_detach os (foreground dir ds)) = Running"
    and "main os early sched (foreground dir ds) = Some p"
  shows "grows (main_detach os (foreground dir ds)) p"
proof -
  let ?d = "main_detach os (foreground dir ds)"
  have sd: "steady ?d" using detach_frame(2)[OF assms(1)] by (simp add: steady_def)
  from grows_loop[OF main_result[OF assms]] steady_init[OF sd, of early]
  show ?thesis by (blast intro: grows_trans)
qed

lemma run_sleeps:
  assumes "main os early sched (foreground dir ds) = Some p"
    and "(t, c, Ev_sleep n) \<in> set (trace p)"
  shows "n = 5"
proof (cases "status (main_detach os (foreground dir ds)) = Running")
  case True
  from run_grows[OF True assms(1)] obtain extra where
    e: "trace p = trace (main_detach os (foreground dir ds)) @ extra" "list_all after_detach extra"
    by (auto simp: grows_iff)
  from assms(2) e(1) detach_no_sleep[of t c n os dir ds] have "(t, c, Ev_sleep n) \<in> set extra"
    by simp
  with e(2) have "after_detach (t, c, Ev_sleep n)" by (simp add: list_all_iff)
  then show ?thesis by (cases c) simp_all
next
  case False
  with assms(1) have "p = main_detach os (foreground dir ds)" by (simp add: main_def Let_def)
  with assms(2) detach_no_sleep[of t c n os dir ds] show ?thesis by simp
qed

lemma in_calls_in: "e \<in> set (calls_in c p) \<longleftrightarrow> (\<exists>t. (t, c, e) \<in> set (trace p))"
  by (force simp: calls_in_def)

lemma run_main_calls:
  assumes "status (main_detach os (foreground dir ds)) = Running"
    and "main os early sched (foreground dir ds) = Some p"
  shows "Ev_closelog \<notin> set (calls_in In_main p)"
    and "Ev_return x \<notin> set (calls_in In_main p)"
    and "Ev_exit x \<notin> set (calls_in In_main p)"
proof -
  from run_grows[OF assms] obtain extra where
    e: "trace p = trace (main_detach os (foreground dir ds)) @ extra" "list_all after_detach extra"
    by (auto simp: grows_iff)
  have a: "after_detach y" if "y \<in> set extra" for y using that e(2) by (simp add: list_all_iff)
  show "Ev_closelog \<notin> set (calls_in In_main p)"
    using a[of "(_, In_main, Ev_closelog)"]
    by (auto simp: in_calls_in e(1) detach_trace[OF assms(1)])
  show "Ev_return x \<notin> set (calls_in In_main p)"
    using a[of "(_, In_main, Ev_return x)"]
    by (auto simp: in_calls_in e(1) detach_trace[OF assms(1)])
  show "Ev_exit x \<notin> set (calls_in In_main p)"
    using a[of "(_, In_main, Ev_exit x)"]
    by (auto simp: in_calls_in e(1) detach_trace[OF assms(1)])
qed

lemma main_handled_result:
  assumes "status (main_detach os (foreground dir ds)) = Running"
    and "handled_early early" and "\<forall>d\<in>set sched. handled d"
    and "main os early sched (foreground dir ds) = Some p"
  shows "status p = Exited 0" and "last (trace p) = (clock p, In_handler, Ev_exit 0)"
proof -
  have "status p = Exited 0 \<and> last (trace p) = (clock p, In_handler, Ev_exit 0)"
  proof (cases "quiet early")
    case True
    from main_forever[OF assms(1) True, of sched] assms(4) have "\<exists>d\<in>set sched. \<not> quiet d" by auto
    from split_list_first_prop[OF this]
    obtain pre d post where sp: "sched = pre @ d # post" "\<not> quiet d" "\<forall>d\<in>set pre. \<not> \<not> quiet d"
      by blast
    from sp(1,2) assms(3) have "stops d" by auto
    then obtain t signum where d: "d = Some (t, signum)" "signum = SIGTERM \<or> signum = SIGINT"
      by (cases d) auto
    from sp(3) have q: "\<forall>d\<in>set pre. quiet d" by simp
    from main_stops[OF assms(1) True q d(2), of t post] assms(4) sp(1) d(1)
    show ?thesis by (auto simp: shutdown_events_def)
  next
    case False
    with assms(2) obtain k signum where e: "early = Some (k, signum)" "installed k signum"
      by (cases early) auto
    from main_early_exit[OF assms(1) e(2), of sched] assms(4) e(1)
    show ?thesis by (auto simp: shutdown_events_def)
  qed
  then show "status p = Exited 0" and "last (trace p) = (clock p, In_handler, Ev_exit 0)"
    by simp_all
qed

section \<open>The claims about the daemon\<close>

text \<open>
  C1. Every successful daemonization performs exactly this sequence, in this order: fork,
  where the original process exits at once and the child continues; the child starts a
  new session; it changes its working directory to the root; it closes standard input,
  output and error. Here \<open>os\<close> holds the answers the child gets and \<open>pid\<close>, positive, is
  what \<open>fork\<close> returns in the original process. The child that comes out of the sequence
  alive has made exactly the six calls, leads its own session, has the working directory
  \<open>/\<close> and none of the three standard descriptors; the original process makes two calls,
  \<open>fork\<close> and \<open>exit(EXIT_SUCCESS)\<close>, whatever the early delivery and the schedule of
  signals.
\<close>

theorem daemonize_sequence:
  assumes "status (main_detach os (foreground dir ds)) = Running" and "0 < pid"
  shows "trace (main_detach os (foreground dir ds)) =
           [(0, In_main, Ev_fork 0), (0, In_main, Ev_setsid (setsid_ret os)),
            (0, In_main, Ev_chdir ''/'' (chdir_ret os)), (0, In_main, Ev_close STDIN_FILENO),
            (0, In_main, Ev_close STDOUT_FILENO), (0, In_main, Ev_close STDERR_FILENO)] \<and>
         own_session (main_detach os (foreground dir ds)) \<and>
         cwd (main_detach os (foreground dir ds)) = ''/'' \<and>
         STDIN_FILENO \<notin> set (fds (main_detach os (foreground dir ds))) \<and>
         STDOUT_FILENO \<notin> set (fds (main_detach os (foreground dir ds))) \<and>
         STDERR_FILENO \<notin> set (fds (main_detach os (foreground dir ds))) \<and>
         (\<exists>p. main (os\<lparr>fork_ret := pid\<rparr>) early sched (foreground dir ds) = Some p \<and>
              status p = Exited EXIT_SUCCESS \<and>
              trace p = [(0, In_main, Ev_fork pid), (0, In_main, Ev_exit EXIT_SUCCESS)])"
proof -
  from assms(1) have ok: "fork_ret os = 0" "0 \<le> setsid_ret os" "0 \<le> chdir_ret os"
    by (simp_all add: detach_running_iff)
  have child: "own_session (main_detach os (foreground dir ds))"
    "cwd (main_detach os (foreground dir ds)) = ''/''"
    "STDIN_FILENO \<notin> set (fds (main_detach os (foreground dir ds)))"
    "STDOUT_FILENO \<notin> set (fds (main_detach os (foreground dir ds)))"
    "STDERR_FILENO \<notin> set (fds (main_detach os (foreground dir ds)))"
    using ok(2,3) by (simp_all add: detach_child[OF ok])
  have parent: "main_detach (os\<lparr>fork_ret := pid\<rparr>) (foreground dir ds)
                  = exit EXIT_SUCCESS (fork pid (foreground dir ds))"
    using assms(2) by (simp add: main_detach_def Let_def)
  have "main (os\<lparr>fork_ret := pid\<rparr>) early sched (foreground dir ds)
          = Some (exit EXIT_SUCCESS (fork pid (foreground dir ds)))"
    by (simp add: main_def Let_def parent)
  then show ?thesis using detach_trace[OF assms(1)] child by simp
qed

theorem daemonize_sequence_witness:
  "status (main_detach \<lparr>fork_ret = 0, setsid_ret = 4711, chdir_ret = 0\<rparr>
             (foreground ''/home/user'' [0, 1, 2, 3])) = Running \<and> (0::int) < 4711 \<and>
   trace (main_detach \<lparr>fork_ret = 0, setsid_ret = 4711, chdir_ret = 0\<rparr>
            (foreground ''/home/user'' [0, 1, 2, 3])) =
     [(0, In_main, Ev_fork 0), (0, In_main, Ev_setsid 4711), (0, In_main, Ev_chdir ''/'' 0),
      (0, In_main, Ev_close 0), (0, In_main, Ev_close 1), (0, In_main, Ev_close 2)] \<and>
   cwd (main_detach \<lparr>fork_ret = 0, setsid_ret = 4711, chdir_ret = 0\<rparr>
            (foreground ''/home/user'' [0, 1, 2, 3])) = ''/'' \<and>
   (\<exists>p. main \<lparr>fork_ret = 4711, setsid_ret = 4711, chdir_ret = 0\<rparr> None []
          (foreground ''/home/user'' [0, 1, 2, 3]) = Some p \<and>
        status p = Exited 0 \<and> trace p = [(0, In_main, Ev_fork 4711), (0, In_main, Ev_exit 0)])"
proof -
  have h: "status (main_detach \<lparr>fork_ret = 0, setsid_ret = 4711, chdir_ret = 0\<rparr>
             (foreground ''/home/user'' [0, 1, 2, 3])) = Running"
    by (simp add: detach_running_iff)
  show ?thesis
    using h daemonize_sequence[OF h, where pid = 4711 and early = None and sched = "[]"]
    by (simp add: STDIN_FILENO_def STDOUT_FILENO_def STDERR_FILENO_def EXIT_SUCCESS_def)
qed

text \<open>
  C9. For every signal number other than \<open>SIGTERM\<close> and \<open>SIGINT\<close>, \<open>signal_handler\<close>
  returns without any effect: no log record, the log stays as it is, the process goes on;
  the state is unchanged.
\<close>

theorem signal_handler_other_signal:
  assumes "signum \<noteq> SIGTERM" and "signum \<noteq> SIGINT"
  shows "signal_handler signum s = s"
  using assms by (simp add: signal_handler_def)

theorem signal_handler_other_signal_witness:
  "(1::int) \<noteq> SIGTERM \<and> (1::int) \<noteq> SIGINT \<and>
   signal_handler 1 (foreground ''/home/user'' [0, 1, 2]) = foreground ''/home/user'' [0, 1, 2]"
  using signal_handler_other_signal[of 1 "foreground ''/home/user'' [0, 1, 2]"]
  by (simp add: SIGTERM_def SIGINT_def)

text \<open>
  C3, as the code has it. Fork failure, session-creation failure and
  working-directory-change failure each terminate the process with the exit status
  \<open>EXIT_FAILURE\<close>, which is not zero and is the same for the three, and none of the three
  calls is made a second time: the failing call is the last one before \<open>exit\<close>. This
  holds for every early delivery and every schedule of signals.
\<close>

theorem daemonize_failures:
  "EXIT_FAILURE \<noteq> 0 \<and>
   (fork_ret os < 0 \<longrightarrow>
      (\<exists>p. main os early sched (foreground dir ds) = Some p \<and> status p = Exited EXIT_FAILURE \<and>
           trace p = [(0, In_main, Ev_fork (fork_ret os)), (0, In_main, Ev_exit EXIT_FAILURE)])) \<and>
   (fork_ret os = 0 \<and> setsid_ret os < 0 \<longrightarrow>
      (\<exists>p. main os early sched (foreground dir ds) = Some p \<and> status p = Exited EXIT_FAILURE \<and>
           trace p = [(0, In_main, Ev_fork 0), (0, In_main, Ev_setsid (setsid_ret os)),
                      (0, In_main, Ev_exit EXIT_FAILURE)])) \<and>
   (fork_ret os = 0 \<and> 0 \<le> setsid_ret os \<and> chdir_ret os < 0 \<longrightarrow>
      (\<exists>p. main os early sched (foreground dir ds) = Some p \<and> status p = Exited EXIT_FAILURE \<and>
           trace p = [(0, In_main, Ev_fork 0), (0, In_main, Ev_setsid (setsid_ret os)),
                      (0, In_main, Ev_chdir ''/'' (chdir_ret os)),
                      (0, In_main, Ev_exit EXIT_FAILURE)]))"
proof (intro conjI impI)
  show "EXIT_FAILURE \<noteq> 0" by (simp add: EXIT_FAILURE_def)
next
  assume "fork_ret os < 0"
  then have "main_detach os (foreground dir ds)
               = exit EXIT_FAILURE (fork (fork_ret os) (foreground dir ds))"
    by (simp add: main_detach_def Let_def)
  then show "\<exists>p. main os early sched (foreground dir ds) = Some p \<and> status p = Exited EXIT_FAILURE \<and>
           trace p = [(0, In_main, Ev_fork (fork_ret os)), (0, In_main, Ev_exit EXIT_FAILURE)]"
    by (simp add: main_def Let_def)
next
  assume "fork_ret os = 0 \<and> setsid_ret os < 0"
  then have "main_detach os (foreground dir ds)
               = exit EXIT_FAILURE (setsid (setsid_ret os) (fork 0 (foreground dir ds)))"
    by (simp add: main_detach_def Let_def)
  then show "\<exists>p. main os early sched (foreground dir ds) = Some p \<and> status p = Exited EXIT_FAILURE \<and>
           trace p = [(0, In_main, Ev_fork 0), (0, In_main, Ev_setsid (setsid_ret os)),
                      (0, In_main, Ev_exit EXIT_FAILURE)]"
    by (simp add: main_def Let_def)
next
  assume "fork_ret os = 0 \<and> 0 \<le> setsid_ret os \<and> chdir_ret os < 0"
  then have "main_detach os (foreground dir ds)
               = exit EXIT_FAILURE (chdir ''/'' (chdir_ret os)
                   (setsid (setsid_ret os) (fork 0 (foreground dir ds))))"
    by (simp add: main_detach_def Let_def)
  then show "\<exists>p. main os early sched (foreground dir ds) = Some p \<and> status p = Exited EXIT_FAILURE \<and>
           trace p = [(0, In_main, Ev_fork 0), (0, In_main, Ev_setsid (setsid_ret os)),
                      (0, In_main, Ev_chdir ''/'' (chdir_ret os)),
                      (0, In_main, Ev_exit EXIT_FAILURE)]"
    by (simp add: main_def Let_def)
qed

theorem daemonize_failures_witness:
  "(\<exists>p. main \<lparr>fork_ret = - 1, setsid_ret = 0, chdir_ret = 0\<rparr> None [] (foreground ''/home/user'' [0, 1, 2]) = Some p \<and>
        status p = Exited 1 \<and> trace p = [(0, In_main, Ev_fork (- 1)), (0, In_main, Ev_exit 1)]) \<and>
   (\<exists>p. main \<lparr>fork_ret = 0, setsid_ret = - 1, chdir_ret = 0\<rparr> None [] (foreground ''/home/user'' [0, 1, 2]) = Some p \<and>
        status p = Exited 1 \<and>
        trace p = [(0, In_main, Ev_fork 0), (0, In_main, Ev_setsid (- 1)), (0, In_main, Ev_exit 1)]) \<and>
   (\<exists>p. main \<lparr>fork_ret = 0, setsid_ret = 4711, chdir_ret = - 1\<rparr> None [] (foreground ''/home/user'' [0, 1, 2]) = Some p \<and>
        status p = Exited 1 \<and>
        trace p = [(0, In_main, Ev_fork 0), (0, In_main, Ev_setsid 4711),
                   (0, In_main, Ev_chdir ''/'' (- 1)), (0, In_main, Ev_exit 1)])"
  using daemonize_failures[where os = "\<lparr>fork_ret = - 1, setsid_ret = 0, chdir_ret = 0\<rparr>"
        and early = None and sched = "[]" and dir = "''/home/user''" and ds = "[0, 1, 2]"]
    daemonize_failures[where os = "\<lparr>fork_ret = 0, setsid_ret = - 1, chdir_ret = 0\<rparr>"
        and early = None and sched = "[]" and dir = "''/home/user''" and ds = "[0, 1, 2]"]
    daemonize_failures[where os = "\<lparr>fork_ret = 0, setsid_ret = 4711, chdir_ret = - 1\<rparr>"
        and early = None and sched = "[]" and dir = "''/home/user''" and ds = "[0, 1, 2]"]
  by (simp add: EXIT_FAILURE_def)

text \<open>
  C3 as stated fails: a failing \<open>fork\<close>, a failing \<open>setsid\<close> and a failing \<open>chdir\<close> all end
  the process with the same status 1, not with three distinct ones.
\<close>

theorem distinct_failure_status_counterexample:
  "map_option status (main \<lparr>fork_ret = - 1, setsid_ret = 0, chdir_ret = 0\<rparr> None []
      (foreground ''/home/user'' [0, 1, 2])) = Some (Exited 1) \<and>
   map_option status (main \<lparr>fork_ret = 0, setsid_ret = - 1, chdir_ret = 0\<rparr> None []
      (foreground ''/home/user'' [0, 1, 2])) = Some (Exited 1) \<and>
   map_option status (main \<lparr>fork_ret = 0, setsid_ret = 4711, chdir_ret = - 1\<rparr> None []
      (foreground ''/home/user'' [0, 1, 2])) = Some (Exited 1)"
  by (simp add: main_def main_detach_def Let_def EXIT_FAILURE_def)

text \<open>
  C2, as the code has it. When \<open>SIGTERM\<close> or \<open>SIGINT\<close> is delivered, the handler itself
  performs the shutdown: it writes one log record, closes the log and calls \<open>exit(0)\<close>,
  all three inside the handler, and the process is gone with status 0 and the log closed
  when the delivery is over. The normal execution context makes no call for the signal.
\<close>

theorem handler_performs_shutdown:
  assumes "signum = SIGTERM \<or> signum = SIGINT"
  shows "status (deliver signum s) = Exited 0 \<and> \<not> log_open (deliver signum s) \<and>
         calls_in In_handler (deliver signum s) =
           calls_in In_handler s @
             [Ev_syslog LOG_INFO ''Daemon received signal %d, exiting.'' [signum],
              Ev_closelog, Ev_exit 0] \<and>
         calls_in In_main (deliver signum s) = calls_in In_main s"
  using deliver_stop[OF assms, of s]
  by (simp add: calls_in_def shutdown_events_def)

theorem handler_performs_shutdown_witness:
  "(SIGINT = SIGTERM \<or> SIGINT = SIGINT) \<and>
   status (deliver SIGINT (foreground ''/'' [])) = Exited 0 \<and>
   \<not> log_open (deliver SIGINT (foreground ''/'' [])) \<and>
   calls_in In_handler (deliver SIGINT (foreground ''/'' [])) =
     [Ev_syslog LOG_INFO ''Daemon received signal %d, exiting.'' [SIGINT], Ev_closelog, Ev_exit 0] \<and>
   calls_in In_main (deliver SIGINT (foreground ''/'' [])) = []"
  using handler_performs_shutdown[of SIGINT "foreground ''/'' []"]
  by (simp add: calls_in_def)

text \<open>
  C2 as stated fails: in the run where no signal arrives early and \<open>SIGTERM\<close> arrives two
  seconds into the first sleep, the log is closed and \<open>exit\<close> is called inside the handler.
\<close>

theorem handler_only_records_counterexample:
  "map_option (calls_in In_handler)
     (main \<lparr>fork_ret = 0, setsid_ret = 4711, chdir_ret = 0\<rparr> None [Some (2, SIGTERM)]
        (foreground ''/home/user'' [0, 1, 2]))
   = Some [Ev_syslog LOG_INFO ''Daemon received signal %d, exiting.'' [SIGTERM],
           Ev_closelog, Ev_exit 0]"
proof -
  have h: "status (main_detach \<lparr>fork_ret = 0, setsid_ret = 4711, chdir_ret = 0\<rparr>
             (foreground ''/home/user'' [0, 1, 2])) = Running"
    by (simp add: detach_running_iff)
  from main_stops[OF h, where early = None and pre = "[]" and signum = SIGTERM and t = 2
      and post = "[]"] detach_trace[OF h]
  show ?thesis
    by (auto simp: calls_in_def init_events_def cycle_events_def shutdown_events_def)
qed




text \<open>
  C5, as the code has it. Once detached, with its handlers installed, the daemon repeats
  the cycle "emit one heartbeat record, then sleep for 5 seconds" until the process
  terminates. In a run where no signal but discarded ones arrives before the stopping
  signal, which comes in the pass after the passes of \<open>pre\<close>, the trace is: the calls of
  the detachment and of the start-up; then one heartbeat and one \<open>sleep(5)\<close> for each pass
  of \<open>pre\<close>, the passes starting 5 seconds apart; then the heartbeat and the \<open>sleep(5)\<close>
  of the pass that the signal interrupts; then the delivery and the handler's calls.
  The interval is the constant 5 of line 57 and not a configuration value: under every
  input, every \<open>sleep\<close> of every run that ends asks for 5 seconds.
\<close>

theorem service_loop_cycles:
  assumes "status (main_detach os (foreground dir ds)) = Running"
  shows "(quiet early \<and> (\<forall>d\<in>set pre. quiet d) \<and> (signum = SIGTERM \<or> signum = SIGINT) \<longrightarrow>
            (\<exists>p. main os early (pre @ Some (t, signum) # post) (foreground dir ds) = Some p \<and>
                 trace p = trace (main_detach os (foreground dir ds)) @ init_events
                   @ concat (map (\<lambda>i. [(5 * i, In_main, Ev_syslog LOG_INFO ''Daemon is running...'' []),
                                       (5 * i, In_main, Ev_sleep 5)]) [0..<length pre])
                   @ [(5 * length pre, In_main, Ev_syslog LOG_INFO ''Daemon is running...'' []),
                      (5 * length pre, In_main, Ev_sleep 5)]
                   @ shutdown_events (5 * length pre + min t 5) signum)) \<and>
         (\<forall>os' early' sched' dir' ds' p' t' c n.
            main os' early' sched' (foreground dir' ds') = Some p' \<and>
            (t', c, Ev_sleep n) \<in> set (trace p') \<longrightarrow> n = 5)"
proof (intro conjI impI allI)
  assume a: "quiet early \<and> (\<forall>d\<in>set pre. quiet d) \<and> (signum = SIGTERM \<or> signum = SIGINT)"
  from a have q: "quiet early" "\<forall>d\<in>set pre. quiet d" "signum = SIGTERM \<or> signum = SIGINT"
    by simp_all
  from main_stops[OF assms q, of t post]
  show "\<exists>p. main os early (pre @ Some (t, signum) # post) (foreground dir ds) = Some p \<and>
                 trace p = trace (main_detach os (foreground dir ds)) @ init_events
                   @ concat (map (\<lambda>i. [(5 * i, In_main, Ev_syslog LOG_INFO ''Daemon is running...'' []),
                                       (5 * i, In_main, Ev_sleep 5)]) [0..<length pre])
                   @ [(5 * length pre, In_main, Ev_syslog LOG_INFO ''Daemon is running...'' []),
                      (5 * length pre, In_main, Ev_sleep 5)]
                   @ shutdown_events (5 * length pre + min t 5) signum"
    by (auto simp: cycles_def cycle_events_def heartbeat_def)
next
  fix os' early' sched' dir' ds' p' t' c n
  assume "main os' early' sched' (foreground dir' ds') = Some p' \<and>
            (t', c, Ev_sleep n) \<in> set (trace p')"
  then show "n = 5" by (blast dest: run_sleeps)
qed

theorem service_loop_cycles_witness:
  "status (main_detach \<lparr>fork_ret = 0, setsid_ret = 4711, chdir_ret = 0\<rparr>
             (foreground ''/home/user'' [0, 1, 2])) = Running \<and>
   quiet None \<and> (SIGTERM = SIGTERM \<or> SIGTERM = SIGINT) \<and>
   (\<exists>p. main \<lparr>fork_ret = 0, setsid_ret = 4711, chdir_ret = 0\<rparr> None
            ([None, None] @ Some (1, SIGTERM) # []) (foreground ''/home/user'' [0, 1, 2]) = Some p \<and>
        trace p = trace (main_detach \<lparr>fork_ret = 0, setsid_ret = 4711, chdir_ret = 0\<rparr>
                     (foreground ''/home/user'' [0, 1, 2])) @ init_events
           @ [(0, In_main, Ev_syslog LOG_INFO ''Daemon is running...'' []), (0, In_main, Ev_sleep 5),
              (5, In_main, Ev_syslog LOG_INFO ''Daemon is running...'' []), (5, In_main, Ev_sleep 5),
              (10, In_main, Ev_syslog LOG_INFO ''Daemon is running...'' []), (10, In_main, Ev_sleep 5),
              (11, In_kernel, Ev_deliver SIGTERM),
              (11, In_handler, Ev_syslog LOG_INFO ''Daemon received signal %d, exiting.'' [SIGTERM]),
              (11, In_handler, Ev_closelog), (11, In_handler, Ev_exit 0)] \<and>
        (10, In_main, Ev_sleep 5) \<in> set (trace p))"
proof -
  have h: "status (main_detach \<lparr>fork_ret = 0, setsid_ret = 4711, chdir_ret = 0\<rparr>
             (foreground ''/home/user'' [0, 1, 2])) = Running"
    by (simp add: detach_running_iff)
  have q: "\<forall>d\<in>set [None, None]. quiet d" by simp
  have u: "[0..<2] = [0, Suc 0]" by (simp add: upt_conv_Cons)
  from service_loop_cycles[OF h, where early = None and pre = "[None, None]" and signum = SIGTERM
      and t = 1 and post = "[]"] q
  have "\<exists>p. main \<lparr>fork_ret = 0, setsid_ret = 4711, chdir_ret = 0\<rparr> None
            ([None, None] @ Some (1, SIGTERM) # []) (foreground ''/home/user'' [0, 1, 2]) = Some p \<and>
        trace p = trace (main_detach \<lparr>fork_ret = 0, setsid_ret = 4711, chdir_ret = 0\<rparr>
                     (foreground ''/home/user'' [0, 1, 2])) @ init_events
           @ [(0, In_main, Ev_syslog LOG_INFO ''Daemon is running...'' []), (0, In_main, Ev_sleep 5),
              (5, In_main, Ev_syslog LOG_INFO ''Daemon is running...'' []), (5, In_main, Ev_sleep 5),
              (10, In_main, Ev_syslog LOG_INFO ''Daemon is running...'' []), (10, In_main, Ev_sleep 5),
              (11, In_kernel, Ev_deliver SIGTERM),
              (11, In_handler, Ev_syslog LOG_INFO ''Daemon received signal %d, exiting.'' [SIGTERM]),
              (11, In_handler, Ev_closelog), (11, In_handler, Ev_exit 0)]"
    by (simp add: shutdown_events_def u)
  then obtain p where p: "main \<lparr>fork_ret = 0, setsid_ret = 4711, chdir_ret = 0\<rparr> None
            ([None, None] @ Some (1, SIGTERM) # []) (foreground ''/home/user'' [0, 1, 2]) = Some p"
        "trace p = trace (main_detach \<lparr>fork_ret = 0, setsid_ret = 4711, chdir_ret = 0\<rparr>
                     (foreground ''/home/user'' [0, 1, 2])) @ init_events
           @ [(0, In_main, Ev_syslog LOG_INFO ''Daemon is running...'' []), (0, In_main, Ev_sleep 5),
              (5, In_main, Ev_syslog LOG_INFO ''Daemon is running...'' []), (5, In_main, Ev_sleep 5),
              (10, In_main, Ev_syslog LOG_INFO ''Daemon is running...'' []), (10, In_main, Ev_sleep 5),
              (11, In_kernel, Ev_deliver SIGTERM),
              (11, In_handler, Ev_syslog LOG_INFO ''Daemon received signal %d, exiting.'' [SIGTERM]),
              (11, In_handler, Ev_closelog), (11, In_handler, Ev_exit 0)]"
    by blast
  have "(10, In_main, Ev_sleep 5) \<in> set (trace p)" by (simp add: p(2))
  with p h show ?thesis by auto
qed

text \<open>
  C5 as stated fails in its last clause: the interval is not a configuration value. There
  is no operating system answer, no signal, no working directory and no set of
  descriptors under which a run that ends contains a \<open>sleep\<close> of any length but 5.
\<close>

theorem interval_configurable_counterexample:
  "\<not> (\<exists>os early sched dir ds p t c n.
        main os early sched (foreground dir ds) = Some p \<and>
        (t, c, Ev_sleep n) \<in> set (trace p) \<and> n \<noteq> 5)"
  by (blast dest: run_sleeps)

text \<open>
  C10. The loop of \<open>main\<close> has no exit of its own. The deliveries considered are those
  that leave the process to the program: each is discarded by the kernel or finds the
  handler installed (a signal that the program does not catch and the kernel does not
  discard ends or stops the process without any statement of the program being run). A
  detached daemon that only discarded signals reach runs forever. When a run of the
  detached daemon ends, it ends in the handler's \<open>exit(0)\<close>: that is the last call, the
  status is 0, and the normal control flow of \<open>main\<close> has made no \<open>closelog\<close>, no
  \<open>return\<close> and no \<open>exit\<close>; lines 60 and 61 are never executed.
\<close>

theorem main_loop_never_ends:
  assumes "status (main_detach os (foreground dir ds)) = Running"
    and "handled_early early" and "\<forall>d\<in>set sched. handled d"
  shows "(quiet early \<and> (\<forall>d\<in>set sched. quiet d) \<longrightarrow> main os early sched (foreground dir ds) = None) \<and>
         (\<forall>p. main os early sched (foreground dir ds) = Some p \<longrightarrow>
            status p = Exited 0 \<and> last (trace p) = (clock p, In_handler, Ev_exit 0) \<and>
            Ev_closelog \<notin> set (calls_in In_main p) \<and>
            (\<forall>c. Ev_return c \<notin> set (calls_in In_main p)) \<and>
            (\<forall>c. Ev_exit c \<notin> set (calls_in In_main p)))"
proof (intro conjI allI impI)
  assume "quiet early \<and> (\<forall>d\<in>set sched. quiet d)"
  then show "main os early sched (foreground dir ds) = None"
    using main_forever[OF assms(1)] by blast
next
  fix p
  assume res: "main os early sched (foreground dir ds) = Some p"
  show "status p = Exited 0" by (rule main_handled_result(1)[OF assms res])
  show "last (trace p) = (clock p, In_handler, Ev_exit 0)"
    by (rule main_handled_result(2)[OF assms res])
  show "Ev_closelog \<notin> set (calls_in In_main p)" by (rule run_main_calls(1)[OF assms(1) res])
  show "Ev_return c \<notin> set (calls_in In_main p)" for c by (rule run_main_calls(2)[OF assms(1) res])
  show "Ev_exit c \<notin> set (calls_in In_main p)" for c by (rule run_main_calls(3)[OF assms(1) res])
qed

theorem main_loop_never_ends_witness:
  "status (main_detach \<lparr>fork_ret = 0, setsid_ret = 4711, chdir_ret = 0\<rparr>
             (foreground ''/home/user'' [0, 1, 2])) = Running \<and>
   handled_early (Some (2, 17)) \<and> handled None \<and> handled (Some (4, 28)) \<and>
   quiet (Some (2, 17)) \<and> quiet None \<and> quiet (Some (4, 28)) \<and>
   main \<lparr>fork_ret = 0, setsid_ret = 4711, chdir_ret = 0\<rparr> (Some (2, 17)) [None, Some (4, 28), None]
     (foreground ''/home/user'' [0, 1, 2]) = None \<and>
   handled_early None \<and> handled (Some (4, SIGTERM)) \<and>
   (\<exists>p. main \<lparr>fork_ret = 0, setsid_ret = 4711, chdir_ret = 0\<rparr> None [None, Some (4, SIGTERM)]
           (foreground ''/home/user'' [0, 1, 2]) = Some p \<and>
        status p = Exited 0 \<and> last (trace p) = (clock p, In_handler, Ev_exit 0) \<and>
        Ev_closelog \<notin> set (calls_in In_main p) \<and> Ev_return 0 \<notin> set (calls_in In_main p))"
proof -
  have h: "status (main_detach \<lparr>fork_ret = 0, setsid_ret = 4711, chdir_ret = 0\<rparr>
             (foreground ''/home/user'' [0, 1, 2])) = Running"
    by (simp add: detach_running_iff)
  have q: "quiet (Some (2, 17)) \<and> quiet None \<and> quiet (Some (4, 28))"
    by (simp add: SIGTERM_def SIGINT_def default_action_def)
  then have hd: "handled_early (Some (2, 17)) \<and> handled None \<and> handled (Some (4, 28))" by simp
  have hs: "handled_early None \<and> handled (Some (4, SIGTERM))" by simp
  have qa: "\<forall>d\<in>set [None, Some (4, 28), None]. quiet d" using q by simp
  have ha: "\<forall>d\<in>set [None, Some (4, 28), None]. handled d" using q by simp
  have hb: "\<forall>d\<in>set [None, Some (4, SIGTERM)]. handled d" by simp
  from main_stops[OF h, where early = None and pre = "[None]" and signum = SIGTERM and t = 4
      and post = "[]"] obtain p where
    p: "main \<lparr>fork_ret = 0, setsid_ret = 4711, chdir_ret = 0\<rparr> None [None, Some (4, SIGTERM)]
           (foreground ''/home/user'' [0, 1, 2]) = Some p"
    by auto
  from main_loop_never_ends[OF h, where early = "Some (2, 17)" and sched = "[None, Some (4, 28), None]"]
    hd ha q qa
  have a: "main \<lparr>fork_ret = 0, setsid_ret = 4711, chdir_ret = 0\<rparr> (Some (2, 17)) [None, Some (4, 28), None]
     (foreground ''/home/user'' [0, 1, 2]) = None" by blast
  from main_loop_never_ends[OF h, where early = None and sched = "[None, Some (4, SIGTERM)]"] hb p
  have b: "status p = Exited 0 \<and> last (trace p) = (clock p, In_handler, Ev_exit 0) \<and>
        Ev_closelog \<notin> set (calls_in In_main p) \<and> Ev_return 0 \<notin> set (calls_in In_main p)"
    by simp
  show ?thesis using h q hd hs a p b by blast
qed

section \<open>Lemmas about the routable service\<close>

lemma start_result:
  assumes "start setup_routes open_endpoint s0 = Inr s"
  shows "started s" and "listener s \<noteq> None"
  using assms by (auto simp: start_def split: sum.splits option.splits)

lemma stop_closed [simp]: "listener (stop s) = None"
  by (simp add: stop_def split: option.splits)

section \<open>The claims about the routable service\<close>

text \<open>
  C6. A route registration after \<open>start\<close> has begun serving fails with \<open>LifecycleError\<close>:
  the registration is rejected and the service, with its open endpoint and its registry,
  is as before. A registration made before \<open>start\<close> is accepted into the registry: the key
  is then bound to the handler and no other key changes. (Before \<open>start\<close> the only
  registrations that are not performed are those the specification refuses for their
  form, an empty path or an unrecognized method.)
\<close>

theorem add_route_lifecycle:
  "(start setup_routes open_endpoint s0 = Inr s \<longrightarrow>
      listener s \<noteq> None \<and>
      add_route path method h s = Inl LifecycleError \<and>
      after_call s (add_route path method h s) = s) \<and>
   (\<not> started s0 \<and> path \<noteq> [] \<and> method \<in> set recognized_methods \<longrightarrow>
      (\<exists>s1. add_route path method h s0 = Inr s1 \<and> registry s1 (path, method) = Some h \<and>
            (\<forall>k. k \<noteq> (path, method) \<longrightarrow> registry s1 k = registry s0 k) \<and>
            \<not> started s1 \<and> listener s1 = listener s0))"
proof (intro conjI impI)
  assume st: "start setup_routes open_endpoint s0 = Inr s"
  show "listener s \<noteq> None" by (rule start_result(2)[OF st])
  show r: "add_route path method h s = Inl LifecycleError"
    using start_result(1)[OF st] by (simp add: add_route_def)
  show "after_call s (add_route path method h s) = s"
    by (simp add: r after_call_def)
next
  assume "\<not> started s0 \<and> path \<noteq> [] \<and> method \<in> set recognized_methods"
  then show "\<exists>s1. add_route path method h s0 = Inr s1 \<and> registry s1 (path, method) = Some h \<and>
            (\<forall>k. k \<noteq> (path, method) \<longrightarrow> registry s1 k = registry s0 k) \<and>
            \<not> started s1 \<and> listener s1 = listener s0"
    by (simp add: add_route_def)
qed

theorem add_route_lifecycle_witness:
  "start Inr (\<lambda>a p. Some 3)
     \<lparr>address = ''0.0.0.0'', port = 8080, registry = [(''/health'', ''GET'') \<mapsto> 200::nat],
      started = False, listener = None, listener_calls = []\<rparr>
   = Inr \<lparr>address = ''0.0.0.0'', port = 8080, registry = [(''/health'', ''GET'') \<mapsto> 200],
          started = True, listener = Some 3, listener_calls = [Opened ''0.0.0.0'' 8080 3]\<rparr> \<and>
   add_route ''/late'' ''GET'' 404
     \<lparr>address = ''0.0.0.0'', port = 8080, registry = [(''/health'', ''GET'') \<mapsto> 200::nat],
      started = True, listener = Some 3, listener_calls = [Opened ''0.0.0.0'' 8080 3]\<rparr>
   = Inl LifecycleError \<and>
   (\<not> started \<lparr>address = ''0.0.0.0'', port = 8080, registry = (Map.empty :: route_key \<rightharpoonup> nat),
      started = False, listener = None, listener_calls = []\<rparr> \<and>
    ''/health'' \<noteq> [] \<and> ''GET'' \<in> set recognized_methods) \<and>
   (\<exists>s1. add_route ''/health'' ''GET'' (200::nat)
           \<lparr>address = ''0.0.0.0'', port = 8080, registry = Map.empty,
            started = False, listener = None, listener_calls = []\<rparr> = Inr s1 \<and>
         registry s1 (''/health'', ''GET'') = Some 200)"
proof -
  let ?init = "\<lparr>address = ''0.0.0.0'', port = 8080, registry = [(''/health'', ''GET'') \<mapsto> 200::nat],
      started = False, listener = None, listener_calls = []\<rparr>"
  let ?s = "\<lparr>address = ''0.0.0.0'', port = 8080, registry = [(''/health'', ''GET'') \<mapsto> 200::nat],
          started = True, listener = Some 3, listener_calls = [Opened ''0.0.0.0'' 8080 3]\<rparr>"
  let ?e = "\<lparr>address = ''0.0.0.0'', port = 8080, registry = (Map.empty :: route_key \<rightharpoonup> nat),
      started = False, listener = None, listener_calls = []\<rparr>"
  have st: "start Inr (\<lambda>a p. Some 3) ?init = Inr ?s" by (simp add: start_def)
  have pre: "\<not> started ?e \<and> ''/health'' \<noteq> [] \<and> ''GET'' \<in> set recognized_methods"
    by (simp add: recognized_methods_def)
  from add_route_lifecycle[of Inr "\<lambda>a p. Some 3" ?init ?s "''/late''" "''GET''" 404] st
  have a: "add_route ''/late'' ''GET'' 404 ?s = Inl LifecycleError" by blast
  from add_route_lifecycle[of Inr "\<lambda>a p. Some 3" ?e ?s "''/health''" "''GET''" 200] pre
  have b: "\<exists>s1. add_route ''/health'' ''GET'' (200::nat) ?e = Inr s1 \<and>
         registry s1 (''/health'', ''GET'') = Some 200" by blast
  show ?thesis by (intro conjI st a b pre[THEN conjunct1] pre[THEN conjunct2, THEN conjunct1]
      pre[THEN conjunct2, THEN conjunct2])
qed

text \<open>
  C7. Constructing a service validates that the bind address is not empty and that the
  port is in the valid range, and fails with \<open>ConfigurationError\<close> otherwise; it does not
  bind a socket: the service it returns has no endpoint and has asked nothing of the
  listener. With an empty bind address it fails with \<open>ConfigurationError\<close>, and since a
  failure returns no service, no endpoint has been opened.
\<close>

theorem construct_validates:
  "(HttpServer addr p = Inl ConfigurationError \<longleftrightarrow> addr = [] \<or> \<not> valid_port p) \<and>
   (addr \<noteq> [] \<and> valid_port p \<longrightarrow>
      (\<exists>s. HttpServer addr p = Inr s \<and> address s = addr \<and> port s = p \<and>
           listener s = None \<and> listener_calls s = [] \<and> \<not> started s)) \<and>
   HttpServer [] p = Inl ConfigurationError"
  by (simp add: HttpServer_def)

theorem construct_validates_witness:
  "(''0.0.0.0'' \<noteq> [] \<and> valid_port 8080) \<and>
   (\<exists>s :: nat service. HttpServer ''0.0.0.0'' 8080 = Inr s \<and> address s = ''0.0.0.0'' \<and> port s = 8080 \<and>
        listener s = None \<and> listener_calls s = [] \<and> \<not> started s) \<and>
   (HttpServer [] 8080 :: service_error + nat service) = Inl ConfigurationError \<and>
   (HttpServer ''0.0.0.0'' 70000 :: service_error + nat service) = Inl ConfigurationError"
proof -
  have v: "''0.0.0.0'' \<noteq> [] \<and> valid_port 8080" by (simp add: valid_port_def)
  have n: "\<not> valid_port 70000" by (simp add: valid_port_def)
  show ?thesis
    using v n construct_validates[of "''0.0.0.0''" 8080, where ?'a = nat]
      construct_validates[of "[]" 8080, where ?'a = nat]
      construct_validates[of "''0.0.0.0''" 70000, where ?'a = nat]
    by blast
qed

text \<open>
  C8. \<open>stop\<close> is idempotent: a second call changes nothing, so two calls leave the same
  observable state as one (the same service state, and the listener was asked to close at
  most once). A call before \<open>start\<close>, when no endpoint is open, has no effect at all.
\<close>

theorem stop_idempotent:
  "stop (stop s) = stop s \<and>
   (listener s = None \<longrightarrow> stop s = s) \<and>
   (HttpServer addr p = Inr s \<longrightarrow> stop s = s)"
  by (auto simp: stop_def HttpServer_def split: option.splits if_splits)

theorem stop_idempotent_witness:
  "stop (stop \<lparr>address = ''0.0.0.0'', port = 8080, registry = [(''/health'', ''GET'') \<mapsto> 200::nat],
          started = True, listener = Some 3, listener_calls = [Opened ''0.0.0.0'' 8080 3]\<rparr>)
   = \<lparr>address = ''0.0.0.0'', port = 8080, registry = [(''/health'', ''GET'') \<mapsto> 200::nat],
          started = True, listener = None, listener_calls = [Opened ''0.0.0.0'' 8080 3, Closed 3]\<rparr> \<and>
   HttpServer ''0.0.0.0'' 8080 =
     Inr \<lparr>address = ''0.0.0.0'', port = 8080, registry = (Map.empty :: route_key \<rightharpoonup> nat),
          started = False, listener = None, listener_calls = []\<rparr> \<and>
   stop \<lparr>address = ''0.0.0.0'', port = 8080, registry = (Map.empty :: route_key \<rightharpoonup> nat),
          started = False, listener = None, listener_calls = []\<rparr>
   = \<lparr>address = ''0.0.0.0'', port = 8080, registry = Map.empty,
          started = False, listener = None, listener_calls = []\<rparr>"
proof -
  let ?s = "\<lparr>address = ''0.0.0.0'', port = 8080, registry = [(''/health'', ''GET'') \<mapsto> 200::nat],
          started = True, listener = Some 3, listener_calls = [Opened ''0.0.0.0'' 8080 3]\<rparr>"
  let ?e = "\<lparr>address = ''0.0.0.0'', port = 8080, registry = (Map.empty :: route_key \<rightharpoonup> nat),
          started = False, listener = None, listener_calls = []\<rparr>"
  have c: "HttpServer ''0.0.0.0'' 8080 = Inr ?e" by (simp add: HttpServer_def valid_port_def)
  have one: "stop ?s = \<lparr>address = ''0.0.0.0'', port = 8080, registry = [(''/health'', ''GET'') \<mapsto> 200::nat],
          started = True, listener = None, listener_calls = [Opened ''0.0.0.0'' 8080 3, Closed 3]\<rparr>"
    by (simp add: stop_def)
  from stop_idempotent[of ?s "''0.0.0.0''" 8080] have "stop (stop ?s) = stop ?s" by blast
  moreover have n: "listener ?e = None" by simp
  moreover from stop_idempotent[of ?e "''0.0.0.0''" 8080] c n have "stop ?e = ?e" by blast
  ultimately show ?thesis using c one by simp
qed

end
